theory Spec2Isabelle
  imports Complex_Main "HOL-Library.AList" "HOL-Library.Word"
begin

unbundle bit_operations_syntax

section \<open>Numbers and vectors\<close>

text \<open>
  The engine computes with JavaScript numbers. They are embedded as HOL reals: the
  comparisons, sums and products of the source are read exactly, so rounding, NaN and the
  infinities of IEEE doubles are outside this development. \<open>Math.round\<close> rounds half up.
\<close>

type_synonym vec3 = "real \<times> real \<times> real"

definition vx :: "vec3 \<Rightarrow> real" where
  "vx v = fst v"

definition vy :: "vec3 \<Rightarrow> real" where
  "vy v = fst (snd v)"

definition vz :: "vec3 \<Rightarrow> real" where
  "vz v = snd (snd v)"

definition distanceTo :: "vec3 \<Rightarrow> vec3 \<Rightarrow> real" where
  "distanceTo a b = sqrt ((vx a - vx b)\<^sup>2 + (vy a - vy b)\<^sup>2 + (vz a - vz b)\<^sup>2)"

definition Math_round :: "real \<Rightarrow> int" where
  "Math_round x = \<lfloor>x + 1 / 2\<rfloor>"

section \<open>Configuration and the LOD table\<close>

record GrassConfig =
  bladeCount :: real
  bladeWidth :: real
  bladeHeight :: real
  windSpeed :: real
  windStrength :: real
  baseColor :: string
  tipColor :: string
  sunElevation :: real
  sunAzimuth :: real
  sunIntensity :: real
  sunColor :: string
  ambientIntensity :: real
  fogDensity :: real
  fogColor :: string
  groundColor :: string
  lodBias :: real
  lodDebug :: "bool option"
  peripheralDensity :: "real option"
  treeDensity :: "real option"
  treeColor :: "string option"
  treeScale :: "real option"

record LodLevel =
  distance :: real
  density :: real
  segments :: nat
  castShadow :: bool

definition LOD_LEVELS :: "LodLevel list" where
  "LOD_LEVELS =
     [\<lparr>distance = 45, density = 1, segments = 4, castShadow = True\<rparr>,
      \<lparr>distance = 85, density = 4 / 10, segments = 2, castShadow = True\<rparr>,
      \<lparr>distance = 150, density = 1 / 10, segments = 1, castShadow = False\<rparr>]"

definition CHUNK_SIZE :: real where
  "CHUNK_SIZE = 30"

definition BASE_MAX_DISTANCE :: real where
  "BASE_MAX_DISTANCE = distance (LOD_LEVELS ! (length LOD_LEVELS - 1))"

definition UPDATE_THRESHOLD :: real where
  "UPDATE_THRESHOLD = 5"

text \<open>The presets of the biome table that the examples below run on.\<close>

definition GoldenFields :: GrassConfig where
  "GoldenFields =
     \<lparr>bladeCount = 60000, bladeWidth = 35 / 100, bladeHeight = 18 / 10,
      windSpeed = 12 / 10, windStrength = 8 / 10,
      baseColor = ''#6A5623'', tipColor = ''#E6C25B'',
      sunElevation = 12, sunAzimuth = - 45, sunIntensity = 6, sunColor = ''#FFD580'',
      ambientIntensity = 3 / 10, fogDensity = 2 / 100, fogColor = ''#FFEFD5'',
      groundColor = ''#3d3215'', lodBias = 1, lodDebug = Some False,
      peripheralDensity = Some 1, treeDensity = Some (3 / 10),
      treeColor = Some ''#D4A017'', treeScale = Some (12 / 10)\<rparr>"

definition BambooGrove :: GrassConfig where
  "BambooGrove =
     \<lparr>bladeCount = 20000, bladeWidth = 8 / 10, bladeHeight = 6,
      windSpeed = 5 / 10, windStrength = 2 / 10,
      baseColor = ''#1B5E20'', tipColor = ''#A5D6A7'',
      sunElevation = 60, sunAzimuth = 120, sunIntensity = 4, sunColor = ''#FFFDE7'',
      ambientIntensity = 4 / 10, fogDensity = 15 / 1000, fogColor = ''#E8F5E9'',
      groundColor = ''#2E7D32'', lodBias = 15 / 10, lodDebug = Some False,
      peripheralDensity = Some (15 / 10), treeDensity = Some (8 / 10),
      treeColor = Some ''#66BB6A'', treeScale = Some (25 / 10)\<rparr>"

section \<open>LOD assignment\<close>

text \<open>\<open>this.currentConfig.lodBias || 1.0\<close>: a zero bias is falsy and replaced by 1.\<close>

definition effectiveBias :: "GrassConfig \<Rightarrow> real" where
  "effectiveBias cfg = (if lodBias cfg = 0 then 1 else lodBias cfg)"

text \<open>
  The loop of \<open>getLODLevel\<close> over the table, from index \<open>i\<close> on: the first level whose
  threshold times the bias is strictly above the distance, or \<open>-1\<close>.
\<close>

fun scanLOD :: "real \<Rightarrow> real \<Rightarrow> int \<Rightarrow> LodLevel list \<Rightarrow> int" where
  "scanLOD d bias i [] = - 1"
| "scanLOD d bias i (l # ls) =
     (if d < distance l * bias then i else scanLOD d bias (i + 1) ls)"

definition getLODLevel :: "GrassConfig \<Rightarrow> real \<Rightarrow> int" where
  "getLODLevel cfg d = scanLOD d (effectiveBias cfg) 0 LOD_LEVELS"

definition getBladeDensity :: "GrassConfig \<Rightarrow> real" where
  "getBladeDensity cfg = (let referenceArea = 200 * 200 in bladeCount cfg / referenceArea)"

section \<open>Coherent noise and terrain height\<close>

text \<open>
  The module-level tables of the noise implementation: \<open>P\<close> is the byte table shuffled once
  at start-up (a parameter here, since the shuffle draws from \<open>Math.random\<close>), and
  \<open>PERM[i] = P[i & 255]\<close> for the 512 entries of \<open>PERM\<close>. Every index that \<open>noise2D\<close>
  reads is below 512, because the entries are bytes.
\<close>

type_synonym perm_table = "nat \<Rightarrow> 8 word"

definition PERM :: "perm_table \<Rightarrow> nat \<Rightarrow> nat" where
  "PERM P i = unat (P (i AND 255))"

definition fade :: "real \<Rightarrow> real" where
  "fade t = t * t * t * (t * (t * 6 - 15) + 10)"

definition lerp :: "real \<Rightarrow> real \<Rightarrow> real \<Rightarrow> real" where
  "lerp t a b = a + t * (b - a)"

definition grad :: "nat \<Rightarrow> real \<Rightarrow> real \<Rightarrow> real \<Rightarrow> real" where
  "grad hash x y z =
     (let h = hash AND 15;
          u = (if h < 8 then x else y);
          v = (if h < 4 then y else if h = 12 \<or> h = 14 then x else z)
      in (if h AND 1 = 0 then u else - u) + (if h AND 2 = 0 then v else - v))"

definition noise2D :: "perm_table \<Rightarrow> real \<Rightarrow> real \<Rightarrow> real" where
  "noise2D P x y =
     (let X = nat (\<lfloor>x\<rfloor> AND 255);
          Y = nat (\<lfloor>y\<rfloor> AND 255);
          xf = x - of_int \<lfloor>x\<rfloor>;
          yf = y - of_int \<lfloor>y\<rfloor>;
          u = fade xf;
          v = fade yf;
          A = PERM P X + Y;
          B = PERM P (X + 1) + Y
      in lerp v
           (lerp u (grad (PERM P A) xf yf 0) (grad (PERM P B) (xf - 1) yf 0))
           (lerp u (grad (PERM P (A + 1)) xf (yf - 1) 0)
                   (grad (PERM P (B + 1)) (xf - 1) (yf - 1) 0)))"

definition getTerrainHeight :: "perm_table \<Rightarrow> real \<Rightarrow> real \<Rightarrow> real" where
  "getTerrainHeight P x z =
     noise2D P (x * 0.01) (z * 0.01) * 12
     + noise2D P (x * 0.05) (z * 0.05) * 3
     + noise2D P (x * 0.2) (z * 0.2) * 0.5"

definition randomRange :: "real \<Rightarrow> real \<Rightarrow> real \<Rightarrow> real" where
  \<comment> \<open>the first argument is the value drawn from \<open>Math.random\<close>\<close>
  "randomRange r lo hi = r * (hi - lo) + lo"

section \<open>Scene objects and the engine state\<close>

text \<open>
  Every three.js object that the engine creates gets a fresh identity from one counter, so
  that two references to the same object are equal identities. \<open>dispose()\<close> on a geometry
  or a material appends its identity to the log \<open>disposed\<close>. A geometry carries the
  per-instance attributes (offset, scale, rotation) that the chunk builder attaches to it;
  vertex data is not represented.
\<close>

datatype material_kind = ShaderMaterial | MeshStandardMaterial | MeshBasicMaterial

record Material =
  mat_id :: nat
  mat_kind :: material_kind

record BufferGeometry =
  geo_id :: nat
  instancedAttributes :: "(vec3 \<times> real \<times> real) list"

record Transform =
  t_position :: vec3
  t_scale :: real
  t_yaw :: real

record Mesh =
  mesh_id :: nat
  geometry :: BufferGeometry
  material :: Material

record InstancedMesh = Mesh +
  count :: int
  instanceMatrix :: "Transform list"

record TreeStore =
  trunk :: InstancedMesh
  foliage :: InstancedMesh

record ChunkData =
  grass :: InstancedMesh
  ground :: Mesh
  trees :: "TreeStore option"
  lodLevel :: int

text \<open>
  The key of a chunk is the string \<open>x:z\<close>. Printing a number is injective on the reals
  that doubles represent, so the pair itself stands for the string.
\<close>

type_synonym chunk_key = "real \<times> real"

definition getChunkKey :: "real \<Rightarrow> real \<Rightarrow> chunk_key" where
  "getChunkKey x z = (x, z)"

datatype call = LoadChunk real real int | UnloadChunk chunk_key

text \<open>
  The fields of the engine that chunk streaming reads or writes. \<open>chunks\<close> is the
  insertion-ordered \<open>Map\<close>, as an association list; \<open>chunkGroup\<close> lists the identities of
  the meshes attached to the scene group. \<open>randomStream\<close> and \<open>randomPos\<close> stand for
  \<open>Math.random\<close>: the values it will return and how many were drawn. \<open>calls\<close> logs every
  invocation of \<open>loadChunk\<close> and \<open>unloadChunk\<close>. Lights, fog, shader uniforms and the
  renderer are not represented.
\<close>

record GrassEngine =
  camera_position :: vec3
  chunkGroup :: "nat list"
  chunks :: "(chunk_key \<times> ChunkData) list"
  lodGeometries :: "BufferGeometry list"
  grassMaterial :: "Material option"
  groundMaterial :: "Material option"
  treeTrunkGeo :: "BufferGeometry option"
  treeFoliageGeo :: "BufferGeometry option"
  treeTrunkMat :: "Material option"
  treeFoliageMat :: "Material option"
  currentConfig :: GrassConfig
  lastUpdatePos :: vec3
  noiseTable :: perm_table
  randomStream :: "nat \<Rightarrow> real"
  randomPos :: nat
  nextId :: nat
  disposed :: "nat list"
  calls :: "call list"

definition sentinelPos :: vec3 where
  "sentinelPos = (99999, 99999, 99999)"

definition disposeGeo :: "BufferGeometry option \<Rightarrow> nat list" where
  "disposeGeo g = (case g of None \<Rightarrow> [] | Some geo \<Rightarrow> [geo_id geo])"

definition disposeMat :: "Material option \<Rightarrow> nat list" where
  "disposeMat m = (case m of None \<Rightarrow> [] | Some mat \<Rightarrow> [mat_id mat])"

section \<open>Building the shared resources\<close>

text \<open>
  \<open>initResources\<close> disposes the shared objects it holds and creates new ones: one blade
  geometry per LOD level, the grass and ground materials, the trunk and foliage geometry
  and their materials. The foliage clumps draw six random numbers for each of their
  \<open>12 + 8 + 9 + 7 + 6\<close> cards.
\<close>

definition initResources :: "GrassEngine \<Rightarrow> GrassConfig \<Rightarrow> GrassEngine" where
  "initResources s config =
     (let n = nextId s;
          k = length LOD_LEVELS
      in s\<lparr>disposed := disposed s @ map geo_id (lodGeometries s)
               @ disposeMat (grassMaterial s) @ disposeMat (groundMaterial s)
               @ disposeGeo (treeTrunkGeo s) @ disposeGeo (treeFoliageGeo s)
               @ disposeMat (treeTrunkMat s) @ disposeMat (treeFoliageMat s),
           lodGeometries :=
             map (\<lambda>i. \<lparr>geo_id = n + i, instancedAttributes = []\<rparr>) [0..<k],
           grassMaterial := Some \<lparr>mat_id = n + k, mat_kind = ShaderMaterial\<rparr>,
           groundMaterial := Some \<lparr>mat_id = n + k + 1, mat_kind = MeshStandardMaterial\<rparr>,
           treeTrunkGeo := Some \<lparr>geo_id = n + k + 2, instancedAttributes = []\<rparr>,
           treeFoliageGeo := Some \<lparr>geo_id = n + k + 3, instancedAttributes = []\<rparr>,
           treeTrunkMat := Some \<lparr>mat_id = n + k + 4, mat_kind = MeshStandardMaterial\<rparr>,
           treeFoliageMat := Some \<lparr>mat_id = n + k + 5, mat_kind = ShaderMaterial\<rparr>,
           randomPos := randomPos s + 6 * (12 + 8 + 9 + 7 + 6),
           nextId := n + k + 6\<rparr>)"

section \<open>Loading a chunk\<close>

text \<open>
  The ground mesh of a chunk: a fresh plane geometry, with a fresh wireframe material when
  \<open>lodDebug\<close> is set and the shared ground material otherwise.
\<close>

definition buildGround :: "GrassEngine \<Rightarrow> Material \<Rightarrow> Mesh \<times> GrassEngine" where
  "buildGround s sharedGround =
     (let n = nextId s;
          groundGeo = \<lparr>geo_id = n, instancedAttributes = []\<rparr>;
          groundMesh =
            (if lodDebug (currentConfig s) = Some True
             then \<lparr>mesh_id = n + 2, geometry = groundGeo,
                   material = \<lparr>mat_id = n + 1, mat_kind = MeshBasicMaterial\<rparr>\<rparr>
             else \<lparr>mesh_id = n + 2, geometry = groundGeo, material = sharedGround\<rparr>)
      in (groundMesh, s\<lparr>nextId := n + 3, chunkGroup := chunkGroup s @ [n + 2]\<rparr>))"

text \<open>
  One cell of the tree sub-grid: the placement is a function of the cell's world
  coordinates through a sine hash and the coherent noise, and of the configuration.
\<close>

definition treeCell ::
  "perm_table \<Rightarrow> real \<Rightarrow> real \<Rightarrow> real \<Rightarrow> real \<Rightarrow> nat \<Rightarrow> nat \<Rightarrow> Transform option" where
  "treeCell P densityProb treeScl x z cx cz =
     (let gridCellSize = 6;
          startOffset = - CHUNK_SIZE / 2;
          cellX = x + startOffset + real cx * gridCellSize;
          cellZ = z + startOffset + real cz * gridCellSize;
          seed = sin (cellX * 12.9898 + cellZ * 78.233) * 43758.5453;
          rand = seed - of_int \<lfloor>seed\<rfloor>;
          jitterX = (rand * 2 - 1) * (gridCellSize * 0.4);
          jitterZ = cos seed * (gridCellSize * 0.4);
          wx = cellX + jitterX;
          wz = cellZ + jitterZ;
          forestNoise = noise2D P (wx * 0.03) (wz * 0.03)
      in if forestNoise * 0.5 + 0.5 < densityProb * 1.5 \<and> rand < 0.8
         then Some \<lparr>t_position = (wx, getTerrainHeight P wx wz - 0.5, wz),
                     t_scale = treeScl * (0.8 + rand * 0.4),
                     t_yaw = rand * pi * 2\<rparr>
         else None)"

definition treeMatrices :: "GrassEngine \<Rightarrow> real \<Rightarrow> real \<Rightarrow> int \<Rightarrow> Transform list" where
  "treeMatrices s x z lodIndex =
     (let densityProb = (case treeDensity (currentConfig s) of None \<Rightarrow> 0 | Some d \<Rightarrow> d)
      in if densityProb > 0.01 \<and> lodIndex \<le> 1
            \<and> treeTrunkGeo s \<noteq> None \<and> treeFoliageGeo s \<noteq> None
         then
           (let gridCellSize = 6;
                cells = nat \<lceil>CHUNK_SIZE / gridCellSize\<rceil>;
                treeScl = (case treeScale (currentConfig s) of
                             None \<Rightarrow> 1 | Some t \<Rightarrow> if t = 0 then 1 else t)
            in List.map_filter (\<lambda>c. c)
                 (concat (map (\<lambda>cx. map (\<lambda>cz. treeCell (noiseTable s) densityProb treeScl x z cx cz)
                                         [0..<cells])
                              [0..<cells])))
         else [])"

definition buildTrees ::
  "GrassEngine \<Rightarrow> Transform list \<Rightarrow> TreeStore option \<times> GrassEngine" where
  "buildTrees s ms =
     (case (treeTrunkGeo s, treeTrunkMat s, treeFoliageGeo s, treeFoliageMat s) of
        (Some tg, Some tm, Some fg, Some fm) \<Rightarrow>
          if length ms > 0
          then
            (let n = nextId s;
                 trunkMesh = \<lparr>mesh_id = n, geometry = tg, material = tm,
                              count = int (length ms), instanceMatrix = ms\<rparr>;
                 foliageMesh = \<lparr>mesh_id = n + 1, geometry = fg, material = fm,
                                count = int (length ms), instanceMatrix = ms\<rparr>
             in (Some \<lparr>trunk = trunkMesh, foliage = foliageMesh\<rparr>,
                 s\<lparr>nextId := n + 2, chunkGroup := chunkGroup s @ [n, n + 1]\<rparr>))
          else (None, s)
      | _ \<Rightarrow> (None, s))"

text \<open>The blade count of a chunk at a LOD level, before the test \<open>bladeCount > 0\<close>.\<close>

definition chunkBladeCount :: "GrassConfig \<Rightarrow> int \<Rightarrow> int" where
  "chunkBladeCount cfg lodIndex =
     (let lodSettings = LOD_LEVELS ! nat lodIndex;
          chunkArea = CHUNK_SIZE * CHUNK_SIZE;
          peripheralMult = (case peripheralDensity cfg of None \<Rightarrow> 1 | Some p \<Rightarrow> p);
          effectiveDensity =
            (if lodIndex = 0 then density lodSettings else density lodSettings * peripheralMult)
      in \<lfloor>getBladeDensity cfg * chunkArea * effectiveDensity\<rfloor>)"

text \<open>The blades of a chunk: four draws from the random stream for each instance.\<close>

fun grassInstances ::
  "(nat \<Rightarrow> real) \<Rightarrow> perm_table \<Rightarrow> real \<Rightarrow> real \<Rightarrow> nat \<Rightarrow> nat \<Rightarrow> (vec3 \<times> real \<times> real) list" where
  "grassInstances rnd P x z pos 0 = []"
| "grassInstances rnd P x z pos (Suc n) =
     (let lx = (rnd pos - 0.5) * CHUNK_SIZE;
          lz = (rnd (pos + 1) - 0.5) * CHUNK_SIZE;
          wx = x + lx;
          wz = z + lz;
          h = getTerrainHeight P wx wz
      in ((wx, h, wz), randomRange (rnd (pos + 2)) 0.8 1.4, randomRange (rnd (pos + 3)) 0 (pi * 2))
         # grassInstances rnd P x z (pos + 4) n)"

definition buildGrass ::
  "GrassEngine \<Rightarrow> BufferGeometry \<Rightarrow> Material \<Rightarrow> real \<Rightarrow> real \<Rightarrow> int
     \<Rightarrow> InstancedMesh \<times> GrassEngine" where
  "buildGrass s geom grassMat x z lodIndex =
     (let bladeCnt = chunkBladeCount (currentConfig s) lodIndex;
          n = nextId s
      in if bladeCnt > 0
         then
           (let chunkGeo =
                  \<lparr>geo_id = n,
                   instancedAttributes =
                     grassInstances (randomStream s) (noiseTable s) x z (randomPos s) (nat bladeCnt)\<rparr>;
                grassMesh = \<lparr>mesh_id = n + 1, geometry = chunkGeo, material = grassMat,
                             count = bladeCnt, instanceMatrix = []\<rparr>
            in (grassMesh,
                s\<lparr>nextId := n + 2, randomPos := randomPos s + 4 * nat bladeCnt,
                  chunkGroup := chunkGroup s @ [n + 1]\<rparr>))
         else
           (\<lparr>mesh_id = n, geometry = geom, material = grassMat,
             count = 0, instanceMatrix = []\<rparr>,
            s\<lparr>nextId := n + 1\<rparr>))"

definition lodGeometryAt :: "GrassEngine \<Rightarrow> int \<Rightarrow> BufferGeometry option" where
  "lodGeometryAt s lodIndex =
     (if 0 \<le> lodIndex \<and> nat lodIndex < length (lodGeometries s)
      then Some (lodGeometries s ! nat lodIndex) else None)"

definition loadChunk :: "GrassEngine \<Rightarrow> real \<Rightarrow> real \<Rightarrow> int \<Rightarrow> GrassEngine" where
  "loadChunk s0 x z lodIndex =
     (let s = s0\<lparr>calls := calls s0 @ [LoadChunk x z lodIndex]\<rparr>;
          key = getChunkKey x z
      in if lodIndex < 0 \<or> lodIndex \<ge> int (length LOD_LEVELS) then s
         else
           (case (lodGeometryAt s lodIndex, grassMaterial s, groundMaterial s) of
              (Some geom, Some grassMat, Some groundMat) \<Rightarrow>
                (let (groundMesh, s1) = buildGround s groundMat;
                     (treeStore, s2) = buildTrees s1 (treeMatrices s1 x z lodIndex);
                     (grassMesh, s3) = buildGrass s2 geom grassMat x z lodIndex
                 in s3\<lparr>chunks :=
                         AList.update key
                           \<lparr>grass = grassMesh, ground = groundMesh, trees = treeStore,
                            lodLevel = lodIndex\<rparr>
                           (chunks s3)\<rparr>)
            | _ \<Rightarrow> s))"

section \<open>Unloading a chunk\<close>

definition unloadChunk :: "GrassEngine \<Rightarrow> chunk_key \<Rightarrow> GrassEngine" where
  "unloadChunk s0 key =
     (let s = s0\<lparr>calls := calls s0 @ [UnloadChunk key]\<rparr>
      in case map_of (chunks s) key of
           None \<Rightarrow> s
         | Some chunk \<Rightarrow>
             s\<lparr>disposed := disposed s
                  @ [geo_id (geometry (grass chunk))]
                  @ [geo_id (geometry (ground chunk))]
                  @ (if mat_kind (material (ground chunk)) = MeshBasicMaterial
                     then [mat_id (material (ground chunk))] else []),
               chunkGroup :=
                 (let g1 = remove1 (mesh_id (grass chunk)) (chunkGroup s);
                      g2 = remove1 (mesh_id (ground chunk)) g1
                  in case trees chunk of
                       None \<Rightarrow> g2
                     | Some t \<Rightarrow> remove1 (mesh_id (foliage t)) (remove1 (mesh_id (trunk t)) g2)),
               chunks := AList.delete key (chunks s)\<rparr>)"

section \<open>Refreshing the chunk store\<close>

text \<open>
  The values \<open>x, x + CHUNK_SIZE, ...\<close> of a \<open>for\<close> loop that runs while \<open>x \<le> hi\<close>. The sums
  are exact here; the source accumulates doubles, which gives the same values when the
  start is an integer multiple of 15 and can differ from them in the last place otherwise.
\<close>

function chunkRange :: "real \<Rightarrow> real \<Rightarrow> real list" where
  "chunkRange x hi = (if x \<le> hi then x # chunkRange (x + CHUNK_SIZE) hi else [])"
  by pat_completeness auto
termination
proof (relation "measure (\<lambda>(x, hi). nat (\<lfloor>(hi - x) / CHUNK_SIZE\<rfloor> + 1))")
  show "wf (measure (\<lambda>(x, hi). nat (\<lfloor>(hi - x) / CHUNK_SIZE\<rfloor> + 1)))"
    by simp
next
  fix x hi :: real
  assume le: "x \<le> hi"
  have "(hi - (x + CHUNK_SIZE)) / CHUNK_SIZE = (hi - x) / CHUNK_SIZE - 1"
    by (simp add: CHUNK_SIZE_def field_simps)
  then have eq: "\<lfloor>(hi - (x + CHUNK_SIZE)) / CHUNK_SIZE\<rfloor> = \<lfloor>(hi - x) / CHUNK_SIZE\<rfloor> - 1"
    by simp
  have "0 \<le> \<lfloor>(hi - x) / CHUNK_SIZE\<rfloor>"
    using le by (simp add: CHUNK_SIZE_def)
  with eq show "((x + CHUNK_SIZE, hi), (x, hi))
      \<in> measure (\<lambda>(x, hi). nat (\<lfloor>(hi - x) / CHUNK_SIZE\<rfloor> + 1))"
    by simp
qed

declare chunkRange.simps [simp del]

record Needed =
  n_x :: real
  n_z :: real
  n_lod :: int

text \<open>The distance in the ground plane from the camera to the centre of a chunk.\<close>

definition chunkDistance :: "real \<Rightarrow> real \<Rightarrow> real \<Rightarrow> real \<Rightarrow> real" where
  "chunkDistance camX camZ x z = sqrt ((x - camX)\<^sup>2 + (z - camZ)\<^sup>2)"

text \<open>The body of the two nested loops that fill \<open>neededChunks\<close>.\<close>

definition neededStep ::
  "GrassConfig \<Rightarrow> real \<Rightarrow> real \<Rightarrow> real \<Rightarrow> real
     \<Rightarrow> (chunk_key \<times> Needed) list \<Rightarrow> (chunk_key \<times> Needed) list" where
  "neededStep cfg camX camZ x z acc =
     (let dist = chunkDistance camX camZ x z;
          lod = getLODLevel cfg dist
      in if lod \<noteq> - 1
         then AList.update (getChunkKey x z) \<lparr>n_x = x, n_z = z, n_lod = lod\<rparr> acc
         else acc)"

definition neededChunks :: "GrassConfig \<Rightarrow> real \<Rightarrow> real \<Rightarrow> (chunk_key \<times> Needed) list" where
  "neededChunks cfg camX camZ =
     (let centerChunkX = of_int (Math_round (camX / CHUNK_SIZE)) * CHUNK_SIZE;
          centerChunkZ = of_int (Math_round (camZ / CHUNK_SIZE)) * CHUNK_SIZE;
          bias = effectiveBias cfg;
          range = BASE_MAX_DISTANCE * bias
      in fold (\<lambda>x. fold (\<lambda>z. neededStep cfg camX camZ x z)
                         (chunkRange (centerChunkZ - range) (centerChunkZ + range)))
              (chunkRange (centerChunkX - range) (centerChunkX + range)) [])"

definition unloadStale ::
  "(chunk_key \<times> Needed) list \<Rightarrow> chunk_key \<times> ChunkData \<Rightarrow> GrassEngine \<Rightarrow> GrassEngine" where
  "unloadStale needed entry s =
     (case map_of needed (fst entry) of
        None \<Rightarrow> unloadChunk s (fst entry)
      | Some n \<Rightarrow> if n_lod n \<noteq> lodLevel (snd entry) then unloadChunk s (fst entry) else s)"

definition loadMissing :: "chunk_key \<times> Needed \<Rightarrow> GrassEngine \<Rightarrow> GrassEngine" where
  "loadMissing entry s =
     (if map_of (chunks s) (fst entry) = None
      then loadChunk s (n_x (snd entry)) (n_z (snd entry)) (n_lod (snd entry))
      else s)"

text \<open>
  \<open>updateChunks\<close>: the throttle on the distance between the camera and the position of
  the last applied refresh, then the needed set, the unload loop over the store and the
  load loop over the needed set. Deleting the entry under the cursor leaves the other
  entries of a \<open>Map\<close> to be visited, so the unload loop runs over the entries the store had
  when it started. The shadow target and the sun, which the method updates last, are not
  represented.
\<close>

definition updateChunks :: "GrassEngine \<Rightarrow> GrassEngine" where
  "updateChunks s =
     (let camX = vx (camera_position s);
          camZ = vz (camera_position s)
      in if distanceTo (lastUpdatePos s) (camera_position s) < UPDATE_THRESHOLD then s
         else
           (let s1 = s\<lparr>lastUpdatePos := camera_position s\<rparr>;
                needed = neededChunks (currentConfig s1) camX camZ;
                s2 = fold (unloadStale needed) (chunks s1) s1
            in fold loadMissing needed s2))"

section \<open>Reconciling a new configuration\<close>

definition needsRebuild :: "GrassConfig \<Rightarrow> GrassConfig \<Rightarrow> bool" where
  "needsRebuild prevConfig config =
     (let needsGeoRebuild = (bladeWidth prevConfig \<noteq> bladeWidth config
                             \<or> bladeHeight prevConfig \<noteq> bladeHeight config);
          needsDensityRebuild = (bladeCount prevConfig \<noteq> bladeCount config);
          needsLodRebuild = (lodBias prevConfig \<noteq> lodBias config);
          needsDebugRebuild = (lodDebug prevConfig \<noteq> lodDebug config);
          needsPeripheralRebuild = (peripheralDensity prevConfig \<noteq> peripheralDensity config);
          needsTreeRebuild = (treeDensity prevConfig \<noteq> treeDensity config
                              \<or> treeScale prevConfig \<noteq> treeScale config)
      in needsGeoRebuild \<or> needsDensityRebuild \<or> needsLodRebuild \<or> needsDebugRebuild
         \<or> needsPeripheralRebuild \<or> needsTreeRebuild)"

text \<open>
  \<open>updateConfig\<close>: a structural change rebuilds the shared resources, unloads every chunk,
  resets the refresh marker and refreshes; any other change patches uniforms, fog and
  light values only, none of which is part of the engine state here.
\<close>

definition updateConfig :: "GrassEngine \<Rightarrow> GrassConfig \<Rightarrow> GrassEngine" where
  "updateConfig s config =
     (let prevConfig = currentConfig s;
          s1 = s\<lparr>currentConfig := config\<rparr>
      in if needsRebuild prevConfig config
         then
           (let s2 = initResources s1 config;
                s3 = fold (\<lambda>key st. unloadChunk st key) (map fst (chunks s2)) s2;
                s4 = s3\<lparr>chunks := []\<rparr>;
                s5 = s4\<lparr>lastUpdatePos := sentinelPos\<rparr>
            in updateChunks s5)
         else s1)"

section \<open>Construction and the frame loop\<close>

text \<open>
  The constructor places the camera at \<open>(0, 15, 40)\<close>, builds the shared resources, fills
  the particle buffers (four draws for each of 2000 particles) and runs the first frame.
  \<open>pos\<close> is the position of the random stream after the textures were synthesised.
\<close>

definition initParticles :: "GrassEngine \<Rightarrow> GrassEngine" where
  "initParticles s = s\<lparr>randomPos := randomPos s + 4 * 2000\<rparr>"

definition animate :: "GrassEngine \<Rightarrow> GrassEngine" where
  "animate s = updateChunks s"

definition constructed :: "perm_table \<Rightarrow> (nat \<Rightarrow> real) \<Rightarrow> nat \<Rightarrow> GrassConfig \<Rightarrow> GrassEngine" where
  "constructed P rnd pos config =
     initParticles
       (initResources
          \<lparr>camera_position = (0, 15, 40), chunkGroup = [], chunks = [],
           lodGeometries = [], grassMaterial = None, groundMaterial = None,
           treeTrunkGeo = None, treeFoliageGeo = None, treeTrunkMat = None,
           treeFoliageMat = None, currentConfig = config, lastUpdatePos = sentinelPos,
           noiseTable = P, randomStream = rnd, randomPos = pos, nextId = 0,
           disposed = [], calls = []\<rparr>
          config)"

definition newGrassEngine :: "perm_table \<Rightarrow> (nat \<Rightarrow> real) \<Rightarrow> nat \<Rightarrow> GrassConfig \<Rightarrow> GrassEngine" where
  "newGrassEngine P rnd pos config = animate (constructed P rnd pos config)"

text \<open>The orbit controls and the input handlers move the camera between frames.\<close>

definition moveCamera :: "GrassEngine \<Rightarrow> vec3 \<Rightarrow> GrassEngine" where
  "moveCamera s p = s\<lparr>camera_position := p\<rparr>"

section \<open>Shared resources\<close>

text \<open>
  After \<open>initResources\<close> every shared resource exists and there is one blade geometry per
  LOD level. The identities of the shared resources are those of the blade geometries, the
  grass and ground materials, and the tree geometries and materials.
\<close>

definition initialised :: "GrassEngine \<Rightarrow> bool" where
  "initialised s \<longleftrightarrow>
     length (lodGeometries s) = length LOD_LEVELS
     \<and> grassMaterial s \<noteq> None \<and> groundMaterial s \<noteq> None
     \<and> treeTrunkGeo s \<noteq> None \<and> treeFoliageGeo s \<noteq> None
     \<and> treeTrunkMat s \<noteq> None \<and> treeFoliageMat s \<noteq> None"

definition sharedIds :: "GrassEngine \<Rightarrow> nat list" where
  "sharedIds s =
     map geo_id (lodGeometries s)
     @ disposeMat (grassMaterial s) @ disposeMat (groundMaterial s)
     @ disposeGeo (treeTrunkGeo s) @ disposeGeo (treeFoliageGeo s)
     @ disposeMat (treeTrunkMat s) @ disposeMat (treeFoliageMat s)"

text \<open>
  Two engine states agree on everything that chunk loading reads apart from the store and
  the random stream position.
\<close>

definition sameShared :: "GrassEngine \<Rightarrow> GrassEngine \<Rightarrow> bool" where
  "sameShared s t \<longleftrightarrow>
     lodGeometries t = lodGeometries s \<and> grassMaterial t = grassMaterial s
     \<and> groundMaterial t = groundMaterial s \<and> treeTrunkGeo t = treeTrunkGeo s
     \<and> treeFoliageGeo t = treeFoliageGeo s \<and> treeTrunkMat t = treeTrunkMat s
     \<and> treeFoliageMat t = treeFoliageMat s \<and> currentConfig t = currentConfig s
     \<and> camera_position t = camera_position s \<and> lastUpdatePos t = lastUpdatePos s
     \<and> noiseTable t = noiseTable s \<and> randomStream t = randomStream s"

section \<open>Notions used in the statements\<close>

text \<open>A coordinate is on the chunk grid when it is an integer multiple of \<open>CHUNK_SIZE\<close>.\<close>

definition onGrid :: "real \<Rightarrow> bool" where
  "onGrid y \<longleftrightarrow> of_int \<lfloor>y / CHUNK_SIZE\<rfloor> * CHUNK_SIZE = y"

text \<open>
  A coordinate is on the half grid when it is an integer multiple of half a chunk, 15. When
  the range of a refresh is on the half grid, every value that the loops of the refresh
  compute is such a multiple, and the additions of the source, made on doubles, are exact.
\<close>

definition onHalfGrid :: "real \<Rightarrow> bool" where
  "onHalfGrid y \<longleftrightarrow> of_int \<lfloor>y / (CHUNK_SIZE / 2)\<rfloor> * (CHUNK_SIZE / 2) = y"

text \<open>
  The fields whose change is structural: blade width and height, blade count, LOD bias,
  the debug flag, the peripheral multiplier, tree density and tree scale.
\<close>

definition structuralFields ::
  "GrassConfig \<Rightarrow> real \<times> real \<times> real \<times> real \<times> bool option \<times> real option \<times> real option \<times> real option" where
  "structuralFields cfg =
     (bladeWidth cfg, bladeHeight cfg, bladeCount cfg, lodBias cfg, lodDebug cfg,
      peripheralDensity cfg, treeDensity cfg, treeScale cfg)"

text \<open>The calls of \<open>loadChunk\<close> and \<open>unloadChunk\<close> made on the way from \<open>s\<close> to \<open>t\<close>.\<close>

definition newCalls :: "GrassEngine \<Rightarrow> GrassEngine \<Rightarrow> call list" where
  "newCalls s t = drop (length (calls s)) (calls t)"

text \<open>
  The invariant of the needed set: its keys are distinct, each entry is filed under the key
  of its own coordinates, and its level is the level of its distance, never \<open>-1\<close>.
\<close>

definition neededOK :: "GrassConfig \<Rightarrow> real \<Rightarrow> real \<Rightarrow> (chunk_key \<times> Needed) list \<Rightarrow> bool" where
  "neededOK cfg camX camZ al \<longleftrightarrow>
     distinct (map fst al)
     \<and> (\<forall>(k, n) \<in> set al. k = (n_x n, n_z n)
           \<and> n_lod n = getLODLevel cfg (chunkDistance camX camZ (n_x n) (n_z n))
           \<and> n_lod n \<noteq> - 1)"

text \<open>The tree transforms stored for a chunk key: trunk and foliage instance matrices.\<close>

definition treeTransforms :: "GrassEngine \<Rightarrow> chunk_key \<Rightarrow> (Transform list \<times> Transform list) option" where
  "treeTransforms s key =
     (case map_of (chunks s) key of
        None \<Rightarrow> None
      | Some c \<Rightarrow>
          (case trees c of
             None \<Rightarrow> Some ([], [])
           | Some t \<Rightarrow> Some (instanceMatrix (trunk t), instanceMatrix (foliage t))))"

text \<open>A noise table and a random stream for the examples.\<close>

definition exampleTable :: perm_table where
  "exampleTable = (\<lambda>i. word_of_nat i)"

definition exampleStream :: "nat \<Rightarrow> real" where
  "exampleStream = (\<lambda>i. 1 / 2)"

section \<open>Properties of the LOD assignment\<close>

lemma getLODLevel_unfold:
  "getLODLevel cfg d =
     (if d < 45 * effectiveBias cfg then 0
      else if d < 85 * effectiveBias cfg then 1
      else if d < 150 * effectiveBias cfg then 2 else - 1)"
  by (simp add: getLODLevel_def LOD_LEVELS_def)

lemma BASE_MAX_DISTANCE_eq: "BASE_MAX_DISTANCE = 150"
  by (simp add: BASE_MAX_DISTANCE_def LOD_LEVELS_def)

lemma LOD_nth:
  "distance (LOD_LEVELS ! 0) = 45"
  "distance (LOD_LEVELS ! Suc 0) = 85"
  "distance (LOD_LEVELS ! 2) = 150"
  "length LOD_LEVELS = 3"
  by (simp_all add: LOD_LEVELS_def)

lemma effectiveBias_nonzero: "effectiveBias cfg \<noteq> 0"
  by (simp add: effectiveBias_def)

lemma getLODLevel_valid:
  "getLODLevel cfg d \<noteq> - 1 \<Longrightarrow> 0 \<le> getLODLevel cfg d \<and> getLODLevel cfg d < int (length LOD_LEVELS)"
  by (simp add: getLODLevel_unfold LOD_nth split: if_splits)

text \<open>
  Claim C5, as amended. For every distance \<open>d \<ge> 0\<close> and every configuration, with the bias
  that the code uses (\<open>lodBias\<close>, or 1 when \<open>lodBias\<close> is 0): level \<open>i\<close> is returned only if
  \<open>d\<close> is strictly below the \<open>i\<close>-th threshold times the bias and not below any earlier
  one; a distance equal to a threshold times the bias gets the next level (none after the
  last); a distance not strictly below the last threshold times the bias gets \<open>-1\<close>.
\<close>

theorem getLODLevel_bands:
  assumes "0 \<le> d"
  shows "(getLODLevel cfg d = int i \<longrightarrow>
            i < length LOD_LEVELS
            \<and> d < distance (LOD_LEVELS ! i) * effectiveBias cfg
            \<and> (\<forall>j<i. \<not> d < distance (LOD_LEVELS ! j) * effectiveBias cfg))
       \<and> (i < length LOD_LEVELS \<and> d = distance (LOD_LEVELS ! i) * effectiveBias cfg \<longrightarrow>
            getLODLevel cfg d = (if i + 1 < length LOD_LEVELS then int (i + 1) else - 1))
       \<and> (\<not> d < BASE_MAX_DISTANCE * effectiveBias cfg \<longrightarrow> getLODLevel cfg d = - 1)"
proof (intro conjI impI)
  assume lv: "getLODLevel cfg d = int i"
  then have i3: "i = 0 \<or> i = Suc 0 \<or> i = 2"
    by (auto simp: getLODLevel_unfold split: if_splits)
  then show "i < length LOD_LEVELS"
    by (auto simp: LOD_nth)
  from lv i3 show "d < distance (LOD_LEVELS ! i) * effectiveBias cfg"
    by (auto simp: getLODLevel_unfold LOD_nth split: if_splits)
  from lv i3 show "\<forall>j<i. \<not> d < distance (LOD_LEVELS ! j) * effectiveBias cfg"
    by (auto simp: getLODLevel_unfold LOD_nth less_2_cases_iff split: if_splits)
next
  assume "i < length LOD_LEVELS \<and> d = distance (LOD_LEVELS ! i) * effectiveBias cfg"
  then have i3: "i = 0 \<or> i = Suc 0 \<or> i = 2"
    and d: "d = distance (LOD_LEVELS ! i) * effectiveBias cfg"
    by (auto simp: LOD_nth)
  from assms d i3 have "0 < effectiveBias cfg \<or> d = 0"
    by (auto simp: LOD_nth zero_le_mult_iff)
  then have "0 < effectiveBias cfg"
    using d i3 effectiveBias_nonzero [of cfg] by (auto simp: LOD_nth)
  with d i3 show "getLODLevel cfg d = (if i + 1 < length LOD_LEVELS then int (i + 1) else - 1)"
    by (auto simp: getLODLevel_unfold LOD_nth)
next
  assume "\<not> d < BASE_MAX_DISTANCE * effectiveBias cfg"
  then have ge: "150 * effectiveBias cfg \<le> d"
    by (simp add: BASE_MAX_DISTANCE_eq)
  show "getLODLevel cfg d = - 1"
  proof (cases "0 < effectiveBias cfg")
    case True
    with ge show ?thesis
      by (simp add: getLODLevel_unfold)
  next
    case False
    with assms have "\<not> d < 45 * effectiveBias cfg" "\<not> d < 85 * effectiveBias cfg"
      "\<not> d < 150 * effectiveBias cfg"
      by (auto simp: not_less intro: order_trans [OF mult_nonneg_nonpos])
    then show ?thesis
      by (simp add: getLODLevel_unfold)
  qed
qed

theorem getLODLevel_bands_witness:
  "(0::real) \<le> 60 \<and> getLODLevel GoldenFields 60 = int 1
   \<and> 60 < distance (LOD_LEVELS ! 1) * effectiveBias GoldenFields
   \<and> \<not> 60 < distance (LOD_LEVELS ! 0) * effectiveBias GoldenFields
   \<and> (45::real) = distance (LOD_LEVELS ! 0) * effectiveBias GoldenFields
   \<and> getLODLevel GoldenFields 45 = 1
   \<and> \<not> (150::real) < BASE_MAX_DISTANCE * effectiveBias GoldenFields
   \<and> getLODLevel GoldenFields 150 = - 1"
  using getLODLevel_bands [of 60 GoldenFields 1] getLODLevel_bands [of 45 GoldenFields 0]
    getLODLevel_bands [of 150 GoldenFields 2]
  by (simp add: getLODLevel_unfold effectiveBias_def GoldenFields_def LOD_nth BASE_MAX_DISTANCE_eq)

text \<open>
  With \<open>lodBias = 0\<close> the distance 10 gets level 0 although 10 is not below the first
  threshold times \<open>lodBias\<close>, which is 0.
\<close>

theorem getLODLevel_zero_bias_counterexample:
  "getLODLevel (GoldenFields\<lparr>lodBias := 0\<rparr>) 10 = 0
   \<and> \<not> (10 < distance (LOD_LEVELS ! 0) * lodBias (GoldenFields\<lparr>lodBias := 0\<rparr>))"
  by (simp add: getLODLevel_unfold effectiveBias_def GoldenFields_def LOD_nth)

text \<open>
  Claim C6. LOD assignment is monotone in the distance: for two distances \<open>d1 < d2\<close> that
  both get a level under the same configuration, the level of \<open>d1\<close> is at most the level of
  \<open>d2\<close>.
\<close>

theorem getLODLevel_monotone:
  assumes "d1 < d2" and "getLODLevel cfg d1 \<noteq> - 1" and "getLODLevel cfg d2 \<noteq> - 1"
  shows "getLODLevel cfg d1 \<le> getLODLevel cfg d2"
  using assms by (auto simp: getLODLevel_unfold split: if_splits)

theorem getLODLevel_monotone_witness:
  "(10::real) < 60 \<and> getLODLevel GoldenFields 10 \<noteq> - 1 \<and> getLODLevel GoldenFields 60 \<noteq> - 1
   \<and> getLODLevel GoldenFields 10 \<le> getLODLevel GoldenFields 60
   \<and> getLODLevel GoldenFields 10 = 0 \<and> getLODLevel GoldenFields 60 = 1"
  using getLODLevel_monotone [of 10 60 GoldenFields]
  by (simp add: getLODLevel_unfold effectiveBias_def GoldenFields_def)

section \<open>What loading and unloading a chunk leave unchanged\<close>

lemmas build_defs = buildGround_def buildTrees_def buildGrass_def

lemma sameShared_refl [simp]: "sameShared s s"
  by (simp add: sameShared_def)

lemma sameShared_trans: "sameShared s t \<Longrightarrow> sameShared t u \<Longrightarrow> sameShared s u"
  by (simp add: sameShared_def)

lemma sameShared_upd [simp]:
  "sameShared s (t\<lparr>chunks := c\<rparr>) = sameShared s t"
  "sameShared s (t\<lparr>calls := cl\<rparr>) = sameShared s t"
  "sameShared (s\<lparr>calls := cl\<rparr>) t = sameShared s t"
  by (simp_all add: sameShared_def)

lemma buildGround_frame [simp]:
  "sameShared s (snd (buildGround s m))"
  "disposed (snd (buildGround s m)) = disposed s"
  "calls (snd (buildGround s m)) = calls s"
  "chunks (snd (buildGround s m)) = chunks s"
  by (simp_all add: sameShared_def buildGround_def Let_def)

lemma buildTrees_frame [simp]:
  "sameShared s (snd (buildTrees s ms))"
  "disposed (snd (buildTrees s ms)) = disposed s"
  "calls (snd (buildTrees s ms)) = calls s"
  "chunks (snd (buildTrees s ms)) = chunks s"
  by (simp_all add: sameShared_def buildTrees_def Let_def split: option.splits)

lemma buildGrass_frame [simp]:
  "sameShared s (snd (buildGrass s g m x z l))"
  "disposed (snd (buildGrass s g m x z l)) = disposed s"
  "calls (snd (buildGrass s g m x z l)) = calls s"
  "chunks (snd (buildGrass s g m x z l)) = chunks s"
  by (simp_all add: sameShared_def buildGrass_def Let_def)

lemma loadChunk_unfold:
  "loadChunk s0 x z lodIndex =
     (let s = s0\<lparr>calls := calls s0 @ [LoadChunk x z lodIndex]\<rparr>
      in if lodIndex < 0 \<or> lodIndex \<ge> int (length LOD_LEVELS) \<or> lodGeometryAt s0 lodIndex = None
            \<or> grassMaterial s0 = None \<or> groundMaterial s0 = None then s
         else
           (let g = buildGround s (the (groundMaterial s0));
                t = buildTrees (snd g) (treeMatrices (snd g) x z lodIndex);
                r = buildGrass (snd t) (the (lodGeometryAt s0 lodIndex)) (the (grassMaterial s0)) x z lodIndex
            in (snd r)\<lparr>chunks :=
                 AList.update (x, z)
                   \<lparr>grass = fst r, ground = fst g, trees = fst t, lodLevel = lodIndex\<rparr>
                   (chunks s0)\<rparr>))"
  by (auto simp: loadChunk_def Let_def lodGeometryAt_def getChunkKey_def split_beta split: option.splits)

lemma loadChunk_sameShared:
  "sameShared s (loadChunk s x z l) \<and> disposed (loadChunk s x z l) = disposed s
   \<and> calls (loadChunk s x z l) = calls s @ [LoadChunk x z l]"
proof -
  let ?s = "s\<lparr>calls := calls s @ [LoadChunk x z l]\<rparr>"
  let ?g = "buildGround ?s (the (groundMaterial s))"
  let ?t = "buildTrees (snd ?g) (treeMatrices (snd ?g) x z l)"
  let ?r = "buildGrass (snd ?t) (the (lodGeometryAt s l)) (the (grassMaterial s)) x z l"
  have "sameShared ?s (snd ?g)" by simp
  moreover have "sameShared (snd ?g) (snd ?t)" by simp
  moreover have "sameShared (snd ?t) (snd ?r)" by simp
  ultimately have "sameShared ?s (snd ?r)"
    by (blast intro: sameShared_trans)
  then show ?thesis
    by (simp add: loadChunk_unfold Let_def)
qed

lemma loadChunk_frame [simp]:
  "lodGeometries (loadChunk s x z l) = lodGeometries s"
  "grassMaterial (loadChunk s x z l) = grassMaterial s"
  "groundMaterial (loadChunk s x z l) = groundMaterial s"
  "treeTrunkGeo (loadChunk s x z l) = treeTrunkGeo s"
  "treeFoliageGeo (loadChunk s x z l) = treeFoliageGeo s"
  "treeTrunkMat (loadChunk s x z l) = treeTrunkMat s"
  "treeFoliageMat (loadChunk s x z l) = treeFoliageMat s"
  "currentConfig (loadChunk s x z l) = currentConfig s"
  "camera_position (loadChunk s x z l) = camera_position s"
  "lastUpdatePos (loadChunk s x z l) = lastUpdatePos s"
  "noiseTable (loadChunk s x z l) = noiseTable s"
  "randomStream (loadChunk s x z l) = randomStream s"
  "disposed (loadChunk s x z l) = disposed s"
  "calls (loadChunk s x z l) = calls s @ [LoadChunk x z l]"
  using loadChunk_sameShared [of s x z l] by (simp_all add: sameShared_def)

lemma unloadChunk_frame [simp]:
  "lodGeometries (unloadChunk s k) = lodGeometries s"
  "grassMaterial (unloadChunk s k) = grassMaterial s"
  "groundMaterial (unloadChunk s k) = groundMaterial s"
  "treeTrunkGeo (unloadChunk s k) = treeTrunkGeo s"
  "treeFoliageGeo (unloadChunk s k) = treeFoliageGeo s"
  "treeTrunkMat (unloadChunk s k) = treeTrunkMat s"
  "treeFoliageMat (unloadChunk s k) = treeFoliageMat s"
  "currentConfig (unloadChunk s k) = currentConfig s"
  "camera_position (unloadChunk s k) = camera_position s"
  "lastUpdatePos (unloadChunk s k) = lastUpdatePos s"
  "noiseTable (unloadChunk s k) = noiseTable s"
  "randomStream (unloadChunk s k) = randomStream s"
  "calls (unloadChunk s k) = calls s @ [UnloadChunk k]"
  by (simp_all add: unloadChunk_def Let_def split: option.splits)

lemma unloadChunk_chunks [simp]: "chunks (unloadChunk s k) = AList.delete k (chunks s)"
  by (simp add: unloadChunk_def Let_def map_of_eq_None_iff split: option.splits)

lemma initialised_loadChunk [simp]: "initialised (loadChunk s x z l) = initialised s"
  by (simp add: initialised_def)

lemma initialised_unloadChunk [simp]: "initialised (unloadChunk s k) = initialised s"
  by (simp add: initialised_def)

lemma loadChunk_initialised:
  assumes "initialised s" and "0 \<le> l" and "l < int (length LOD_LEVELS)"
  shows "loadChunk s x z l =
     (let s0 = s\<lparr>calls := calls s @ [LoadChunk x z l]\<rparr>;
          g = buildGround s0 (the (groundMaterial s));
          t = buildTrees (snd g) (treeMatrices (snd g) x z l);
          r = buildGrass (snd t) (lodGeometries s ! nat l) (the (grassMaterial s)) x z l
      in (snd r)\<lparr>chunks :=
           AList.update (x, z)
             \<lparr>grass = fst r, ground = fst g, trees = fst t, lodLevel = l\<rparr> (chunks s)\<rparr>)"
proof -
  from assms have "lodGeometryAt s l = Some (lodGeometries s ! nat l)"
    by (simp add: lodGeometryAt_def initialised_def)
  with assms show ?thesis
    by (auto simp add: loadChunk_unfold [of s x z l] initialised_def Let_def)
qed

lemma buildGrass_zero:
  assumes "chunkBladeCount (currentConfig t) l \<le> 0"
  shows "fst (buildGrass t g m x z l) =
     \<lparr>mesh_id = nextId t, geometry = g, material = m, count = 0, instanceMatrix = []\<rparr>"
  using assms by (simp add: buildGrass_def Let_def)

lemma treeMatrices_cong:
  assumes "sameShared s t"
  shows "treeMatrices t x z l = treeMatrices s x z l"
  using assms by (auto simp add: treeMatrices_def sameShared_def Let_def)

lemma buildTrees_matrices:
  assumes "treeTrunkGeo t \<noteq> None" and "treeFoliageGeo t \<noteq> None"
    and "treeTrunkMat t \<noteq> None" and "treeFoliageMat t \<noteq> None"
  shows "(case fst (buildTrees t ms) of
            None \<Rightarrow> ([], [])
          | Some ts \<Rightarrow> (instanceMatrix (trunk ts), instanceMatrix (foliage ts))) = (ms, ms)"
  using assms by (auto simp: buildTrees_def Let_def)

lemma loadChunk_entry:
  assumes "initialised s" and "0 \<le> l" and "l < int (length LOD_LEVELS)"
  shows "\<exists>c. chunks (loadChunk s x z l) = AList.update (x, z) c (chunks s) \<and> lodLevel c = l
      \<and> (chunkBladeCount (currentConfig s) l \<le> 0 \<longrightarrow>
            count (grass c) = 0 \<and> geometry (grass c) = lodGeometries s ! nat l)
      \<and> (case trees c of
            None \<Rightarrow> ([], [])
          | Some ts \<Rightarrow> (instanceMatrix (trunk ts), instanceMatrix (foliage ts)))
          = (treeMatrices s x z l, treeMatrices s x z l)"
proof -
  let ?s0 = "s\<lparr>calls := calls s @ [LoadChunk x z l]\<rparr>"
  let ?g = "buildGround ?s0 (the (groundMaterial s))"
  let ?t = "buildTrees (snd ?g) (treeMatrices (snd ?g) x z l)"
  let ?r = "buildGrass (snd ?t) (lodGeometries s ! nat l) (the (grassMaterial s)) x z l"
  let ?c = "\<lparr>grass = fst ?r, ground = fst ?g, trees = fst ?t, lodLevel = l\<rparr>"
  have sg: "sameShared s (snd ?g)"
    by (simp add: sameShared_def buildGround_def Let_def)
  have st: "sameShared s (snd ?t)"
    using sg buildTrees_frame(1) by (blast intro: sameShared_trans)
  have "chunks (loadChunk s x z l) = AList.update (x, z) ?c (chunks s)"
    by (simp add: loadChunk_initialised [OF assms] Let_def)
  moreover have "lodLevel ?c = l"
    by simp
  moreover have "count (grass ?c) = 0 \<and> geometry (grass ?c) = lodGeometries s ! nat l"
    if "chunkBladeCount (currentConfig s) l \<le> 0"
  proof -
    from st have "currentConfig (snd ?t) = currentConfig s"
      by (simp add: sameShared_def)
    with that show ?thesis
      by (simp add: buildGrass_zero)
  qed
  moreover have "(case trees ?c of
            None \<Rightarrow> ([], [])
          | Some ts \<Rightarrow> (instanceMatrix (trunk ts), instanceMatrix (foliage ts)))
          = (treeMatrices s x z l, treeMatrices s x z l)"
  proof -
    from sg assms(1) have "treeTrunkGeo (snd ?g) \<noteq> None" "treeFoliageGeo (snd ?g) \<noteq> None"
      "treeTrunkMat (snd ?g) \<noteq> None" "treeFoliageMat (snd ?g) \<noteq> None"
      by (simp_all add: sameShared_def initialised_def)
    then show ?thesis
      using buildTrees_matrices [of "snd ?g" "treeMatrices (snd ?g) x z l"]
      by (simp add: treeMatrices_cong [OF sg])
  qed
  ultimately show ?thesis
    by blast
qed

section \<open>Construction\<close>

lemma initResources_initialised [simp]: "initialised (initResources s cfg)"
  by (simp add: initialised_def initResources_def Let_def)

lemma initialised_upd [simp]:
  "initialised (s\<lparr>chunks := c\<rparr>) = initialised s"
  "initialised (s\<lparr>calls := cl\<rparr>) = initialised s"
  "initialised (s\<lparr>lastUpdatePos := p\<rparr>) = initialised s"
  "initialised (s\<lparr>camera_position := p\<rparr>) = initialised s"
  "initialised (s\<lparr>currentConfig := cfg\<rparr>) = initialised s"
  "initialised (s\<lparr>randomPos := n\<rparr>) = initialised s"
  by (simp_all add: initialised_def)

lemma constructed_simps [simp]:
  "initialised (constructed P rnd pos cfg)"
  "currentConfig (constructed P rnd pos cfg) = cfg"
  "noiseTable (constructed P rnd pos cfg) = P"
  "chunks (constructed P rnd pos cfg) = []"
  "calls (constructed P rnd pos cfg) = []"
  "disposed (constructed P rnd pos cfg) = []"
  "camera_position (constructed P rnd pos cfg) = (0, 15, 40)"
  "lastUpdatePos (constructed P rnd pos cfg) = sentinelPos"
  by (simp_all add: constructed_def initParticles_def initResources_def initialised_def Let_def disposeGeo_def disposeMat_def)

section \<open>Chunks without blades\<close>


lemma chunkBladeCount_example:
  "chunkBladeCount (GoldenFields\<lparr>bladeCount := - 1000\<rparr>) 1 = - 9"
  by (simp add: chunkBladeCount_def GoldenFields_def getBladeDensity_def LOD_LEVELS_def
      CHUNK_SIZE_def Let_def)

text \<open>
  Claim C8. In an engine whose shared resources exist, for every valid LOD level at which
  the computed blade count is zero or negative (a negative \<open>bladeCount\<close> in the
  configuration included), \<open>loadChunk\<close> inserts an entry for the chunk key into the store,
  and the grass batch of that entry has zero instances.
\<close>

theorem loadChunk_zero_blades:
  assumes "initialised s" and "0 \<le> l" and "l < int (length LOD_LEVELS)"
    and "chunkBladeCount (currentConfig s) l \<le> 0"
  shows "\<exists>c. map_of (chunks (loadChunk s x z l)) (getChunkKey x z) = Some c
           \<and> count (grass c) = 0 \<and> lodLevel c = l"
proof -
  from loadChunk_entry [OF assms(1-3), of x z] assms(4)
  obtain c where "chunks (loadChunk s x z l) = AList.update (x, z) c (chunks s)"
    and "lodLevel c = l" and "count (grass c) = 0"
    by blast
  then show ?thesis
    by (simp add: getChunkKey_def update_conv')
qed

theorem loadChunk_zero_blades_witness:
  "initialised (constructed exampleTable exampleStream 0 (GoldenFields\<lparr>bladeCount := - 1000\<rparr>))
   \<and> (0::int) \<le> 1 \<and> 1 < int (length LOD_LEVELS)
   \<and> chunkBladeCount (currentConfig (constructed exampleTable exampleStream 0 (GoldenFields\<lparr>bladeCount := - 1000\<rparr>))) 1 \<le> 0
   \<and> (\<exists>c. map_of (chunks (loadChunk (constructed exampleTable exampleStream 0 (GoldenFields\<lparr>bladeCount := - 1000\<rparr>)) 30 60 1))
              (getChunkKey 30 60) = Some c
          \<and> count (grass c) = 0 \<and> lodLevel c = 1)"
  using loadChunk_zero_blades [of "constructed exampleTable exampleStream 0 (GoldenFields\<lparr>bladeCount := - 1000\<rparr>)" 1 30 60]
  by (simp add: chunkBladeCount_example LOD_nth)

section \<open>Tree placement\<close>

lemma randomPos_builders [simp]:
  "randomPos (snd (buildGround s m)) = randomPos s"
  "randomPos (snd (buildTrees s ms)) = randomPos s"
  "randomPos (snd (buildGrass s g gm x z l))
     = randomPos s + 4 * nat (chunkBladeCount (currentConfig s) l)"
  by (simp_all add: build_defs Let_def split: option.splits)

lemma currentConfig_builders [simp]:
  "currentConfig (snd (buildGround s m)) = currentConfig s"
  "currentConfig (snd (buildTrees s ms)) = currentConfig s"
  by (simp_all add: build_defs Let_def split: option.splits)

lemma randomPos_loadChunk:
  assumes "initialised s" and "0 \<le> l" and "l < int (length LOD_LEVELS)"
  shows "randomPos (loadChunk s x z l)
       = randomPos s + 4 * nat (chunkBladeCount (currentConfig s) l)"
  by (simp add: loadChunk_initialised [OF assms] Let_def)

lemma randomPos_unloadChunk [simp]: "randomPos (unloadChunk s k) = randomPos s"
  by (simp add: unloadChunk_def Let_def split: option.splits)

lemma chunkBladeCount_GoldenFields: "chunkBladeCount GoldenFields 1 = 540"
  by (simp add: chunkBladeCount_def GoldenFields_def getBladeDensity_def LOD_LEVELS_def CHUNK_SIZE_def Let_def)

lemma treeTransforms_loadChunk:
  assumes "initialised s" and "0 \<le> l" and "l < int (length LOD_LEVELS)"
  shows "treeTransforms (loadChunk s x z l) (getChunkKey x z)
       = Some (treeMatrices s x z l, treeMatrices s x z l)"
proof -
  from loadChunk_entry [OF assms, of x z]
  obtain c where "chunks (loadChunk s x z l) = AList.update (x, z) c (chunks s)"
    and "(case trees c of
            None \<Rightarrow> ([], [])
          | Some ts \<Rightarrow> (instanceMatrix (trunk ts), instanceMatrix (foliage ts)))
          = (treeMatrices s x z l, treeMatrices s x z l)"
    by blast
  then show ?thesis
    by (simp add: treeTransforms_def getChunkKey_def update_conv' split: option.splits)
qed

text \<open>
  Claim C9. Tree placement is deterministic: in two engine states with the same
  configuration and the same noise table, both with their shared resources, \<open>loadChunk\<close>
  at the same \<open>(x, z, lodIndex)\<close> stores the same trunk and foliage transforms (position,
  scale, yaw), whatever the store, the random stream and its position are in the two
  states. The witness reloads a cell after unloading it, with the random stream advanced
  in between.
\<close>

theorem tree_placement_deterministic:
  assumes "currentConfig s2 = currentConfig s1" and "noiseTable s2 = noiseTable s1"
    and "initialised s1" and "initialised s2"
    and "0 \<le> l" and "l < int (length LOD_LEVELS)"
  shows "treeTransforms (loadChunk s2 x z l) (getChunkKey x z)
       = treeTransforms (loadChunk s1 x z l) (getChunkKey x z)
       \<and> treeTransforms (loadChunk s1 x z l) (getChunkKey x z) \<noteq> None"
proof -
  from assms(1-4) have "treeMatrices s2 x z l = treeMatrices s1 x z l"
    by (auto simp add: treeMatrices_def initialised_def Let_def)
  with assms show ?thesis
    by (simp add: treeTransforms_loadChunk)
qed

theorem tree_placement_deterministic_witness:
  "currentConfig (unloadChunk (loadChunk (constructed exampleTable exampleStream 0 GoldenFields) 30 60 1) (getChunkKey 30 60))
     = currentConfig (constructed exampleTable exampleStream 0 GoldenFields)
   \<and> noiseTable (unloadChunk (loadChunk (constructed exampleTable exampleStream 0 GoldenFields) 30 60 1) (getChunkKey 30 60))
     = noiseTable (constructed exampleTable exampleStream 0 GoldenFields)
   \<and> initialised (constructed exampleTable exampleStream 0 GoldenFields)
   \<and> initialised (unloadChunk (loadChunk (constructed exampleTable exampleStream 0 GoldenFields) 30 60 1) (getChunkKey 30 60))
   \<and> (0::int) \<le> 1 \<and> 1 < int (length LOD_LEVELS)
   \<and> treeTransforms
        (loadChunk (unloadChunk (loadChunk (constructed exampleTable exampleStream 0 GoldenFields) 30 60 1) (getChunkKey 30 60)) 30 60 1)
        (getChunkKey 30 60)
     = treeTransforms (loadChunk (constructed exampleTable exampleStream 0 GoldenFields) 30 60 1) (getChunkKey 30 60)
   \<and> randomPos (unloadChunk (loadChunk (constructed exampleTable exampleStream 0 GoldenFields) 30 60 1) (getChunkKey 30 60))
     \<noteq> randomPos (constructed exampleTable exampleStream 0 GoldenFields)"
  using tree_placement_deterministic
    [of "unloadChunk (loadChunk (constructed exampleTable exampleStream 0 GoldenFields) 30 60 1) (getChunkKey 30 60)"
        "constructed exampleTable exampleStream 0 GoldenFields" 1 30 60]
  by (simp add: LOD_nth randomPos_loadChunk chunkBladeCount_GoldenFields)

section \<open>The grid of a refresh\<close>

lemma chunkRange_mem:
  "x \<in> set (chunkRange lo hi) \<longleftrightarrow> (\<exists>k::nat. x = lo + real k * CHUNK_SIZE \<and> x \<le> hi)"
proof (induction lo hi rule: chunkRange.induct)
  case (1 lo hi)
  show ?case
  proof (cases "lo \<le> hi")
    case True
    then have "x \<in> set (chunkRange lo hi) \<longleftrightarrow> x = lo \<or> x \<in> set (chunkRange (lo + CHUNK_SIZE) hi)"
      by (subst chunkRange.simps) simp
    also have "\<dots> \<longleftrightarrow> x = lo \<or> (\<exists>k::nat. x = lo + CHUNK_SIZE + real k * CHUNK_SIZE \<and> x \<le> hi)"
      using 1 True by simp
    also have "\<dots> \<longleftrightarrow> (\<exists>k::nat. x = lo + real k * CHUNK_SIZE \<and> x \<le> hi)"
    proof
      assume "x = lo \<or> (\<exists>k::nat. x = lo + CHUNK_SIZE + real k * CHUNK_SIZE \<and> x \<le> hi)"
      then show "\<exists>k::nat. x = lo + real k * CHUNK_SIZE \<and> x \<le> hi"
      proof
        assume "x = lo"
        with True have "x = lo + real 0 * CHUNK_SIZE \<and> x \<le> hi" by simp
        then show ?thesis by blast
      next
        assume "\<exists>k::nat. x = lo + CHUNK_SIZE + real k * CHUNK_SIZE \<and> x \<le> hi"
        then obtain k :: nat where "x = lo + CHUNK_SIZE + real k * CHUNK_SIZE" and "x \<le> hi"
          by blast
        then have "x = lo + real (Suc k) * CHUNK_SIZE \<and> x \<le> hi"
          by (simp add: algebra_simps)
        then show ?thesis by blast
      qed
    next
      assume "\<exists>k::nat. x = lo + real k * CHUNK_SIZE \<and> x \<le> hi"
      then obtain k :: nat where k: "x = lo + real k * CHUNK_SIZE" "x \<le> hi"
        by blast
      show "x = lo \<or> (\<exists>k::nat. x = lo + CHUNK_SIZE + real k * CHUNK_SIZE \<and> x \<le> hi)"
      proof (cases k)
        case 0
        with k show ?thesis by simp
      next
        case (Suc j)
        with k have "x = lo + CHUNK_SIZE + real j * CHUNK_SIZE \<and> x \<le> hi"
          by (simp add: algebra_simps)
        then show ?thesis by blast
      qed
    qed
    finally show ?thesis .
  next
    case False
    then have "chunkRange lo hi = []"
      by (subst chunkRange.simps) simp
    moreover have "\<not> (\<exists>k::nat. x = lo + real k * CHUNK_SIZE \<and> x \<le> hi)"
    proof
      assume "\<exists>k::nat. x = lo + real k * CHUNK_SIZE \<and> x \<le> hi"
      then obtain k :: nat where "x = lo + real k * CHUNK_SIZE" and "x \<le> hi"
        by blast
      moreover have "0 \<le> real k * CHUNK_SIZE"
        by (simp add: CHUNK_SIZE_def)
      ultimately show False
        using False by simp
    qed
    ultimately show ?thesis by simp
  qed
qed

section \<open>The needed set\<close>

lemma set_update_subset: "set (AList.update k v al) \<subseteq> insert (k, v) (set al)"
  by (induction al) auto

lemma neededStep_keys:
  "fst ` set (neededStep cfg camX camZ x z acc) =
     fst ` set acc \<union> (if getLODLevel cfg (chunkDistance camX camZ x z) \<noteq> - 1 then {(x, z)} else {})"
  by (auto simp: neededStep_def Let_def getChunkKey_def dom_update)

lemma fold_neededStep_keys:
  "fst ` set (fold (neededStep cfg camX camZ x) zs acc) =
     fst ` set acc \<union> {(x, z) |z. z \<in> set zs \<and> getLODLevel cfg (chunkDistance camX camZ x z) \<noteq> - 1}"
proof (induction zs arbitrary: acc)
  case Nil
  then show ?case by simp
next
  case (Cons z zs)
  show ?case
    by (auto simp: Cons.IH neededStep_keys split: if_splits)
qed

lemma fold_fold_neededStep_keys:
  "fst ` set (fold (\<lambda>x. fold (neededStep cfg camX camZ x) zs) xs acc) =
     fst ` set acc \<union> {(x, z) |x z. x \<in> set xs \<and> z \<in> set zs
                          \<and> getLODLevel cfg (chunkDistance camX camZ x z) \<noteq> - 1}"
proof (induction xs arbitrary: acc)
  case Nil
  then show ?case by simp
next
  case (Cons x xs)
  show ?case
    by (auto simp: Cons.IH fold_neededStep_keys)
qed

lemma neededChunks_keys:
  "k \<in> fst ` set (neededChunks cfg camX camZ) \<longleftrightarrow>
     fst k \<in> set (chunkRange
                    (of_int (Math_round (camX / CHUNK_SIZE)) * CHUNK_SIZE - BASE_MAX_DISTANCE * effectiveBias cfg)
                    (of_int (Math_round (camX / CHUNK_SIZE)) * CHUNK_SIZE + BASE_MAX_DISTANCE * effectiveBias cfg))
     \<and> snd k \<in> set (chunkRange
                    (of_int (Math_round (camZ / CHUNK_SIZE)) * CHUNK_SIZE - BASE_MAX_DISTANCE * effectiveBias cfg)
                    (of_int (Math_round (camZ / CHUNK_SIZE)) * CHUNK_SIZE + BASE_MAX_DISTANCE * effectiveBias cfg))
     \<and> getLODLevel cfg (chunkDistance camX camZ (fst k) (snd k)) \<noteq> - 1"
  unfolding neededChunks_def Let_def fold_fold_neededStep_keys
  by (cases k) auto

lemma neededStep_OK:
  assumes "neededOK cfg camX camZ acc"
  shows "neededOK cfg camX camZ (neededStep cfg camX camZ x z acc)"
  using assms set_update_subset [of "(x, z)" _ acc]
  by (fastforce simp: neededOK_def neededStep_def Let_def getChunkKey_def distinct_update)

lemma fold_neededStep_OK:
  assumes "neededOK cfg camX camZ acc"
  shows "neededOK cfg camX camZ (fold (neededStep cfg camX camZ x) zs acc)"
  using assms by (induction zs arbitrary: acc) (simp_all add: neededStep_OK)

lemma fold_fold_neededStep_OK:
  assumes "neededOK cfg camX camZ acc"
  shows "neededOK cfg camX camZ (fold (\<lambda>x. fold (neededStep cfg camX camZ x) zs) xs acc)"
  using assms by (induction xs arbitrary: acc) (simp_all add: fold_neededStep_OK)

lemma neededChunks_OK: "neededOK cfg camX camZ (neededChunks cfg camX camZ)"
  unfolding neededChunks_def Let_def
  by (rule fold_fold_neededStep_OK) (simp add: neededOK_def)

section \<open>The two loops of a refresh\<close>

lemma unloadChunk_sameShared [simp]: "sameShared s (unloadChunk s k)"
  by (simp add: sameShared_def)

lemma loadChunk_same [simp]: "sameShared s (loadChunk s x z l)"
  by (simp add: sameShared_def)

lemma unloadStale_sameShared [simp]: "sameShared s (unloadStale needed e s)"
  by (simp add: unloadStale_def split: option.splits)

lemma loadMissing_sameShared [simp]: "sameShared s (loadMissing e s)"
  by (simp add: loadMissing_def)

lemma fold_unloadStale_sameShared: "sameShared s (fold (unloadStale needed) es s)"
proof (induction es arbitrary: s)
  case Nil
  show ?case by simp
next
  case (Cons e es)
  have step: "sameShared s (unloadStale needed e s)"
    by simp
  show ?case
    using sameShared_trans [OF step Cons.IH [of "unloadStale needed e s"]] by simp
qed

lemma fold_loadMissing_sameShared: "sameShared s (fold loadMissing es s)"
proof (induction es arbitrary: s)
  case Nil
  show ?case by simp
next
  case (Cons e es)
  have step: "sameShared s (loadMissing e s)"
    by simp
  show ?case
    using sameShared_trans [OF step Cons.IH [of "loadMissing e s"]] by simp
qed

lemma fold_unloadChunk_sameShared: "sameShared s (fold (\<lambda>key st. unloadChunk st key) ks s)"
proof (induction ks arbitrary: s)
  case Nil
  show ?case by simp
next
  case (Cons k ks)
  have step: "sameShared s (unloadChunk s k)"
    by simp
  show ?case
    using sameShared_trans [OF step Cons.IH [of "unloadChunk s k"]] by simp
qed

lemma sameShared_initialised: "sameShared s t \<Longrightarrow> initialised t = initialised s"
  by (simp add: sameShared_def initialised_def)

text \<open>The unload loop: what stays in the store is in the needed set.\<close>

lemma unloadStale_keys:
  "fst ` set (chunks (unloadStale needed e s)) \<subseteq> fst ` set (chunks s)"
  using dom_delete_subset [of "fst e" "chunks s"]
  by (auto simp: unloadStale_def split: option.splits)

lemma unloadStale_removes:
  assumes "fst e \<notin> fst ` set needed"
  shows "fst e \<notin> fst ` set (chunks (unloadStale needed e s))"
proof -
  from assms have "map_of needed (fst e) = None"
    by (simp add: map_of_eq_None_iff)
  then show ?thesis
    by (simp add: unloadStale_def delete_notin_dom)
qed

lemma fold_unloadStale_keys:
  "fst ` set (chunks (fold (unloadStale needed) es s)) \<subseteq> fst ` set (chunks s)"
proof (induction es arbitrary: s)
  case Nil
  show ?case by simp
next
  case (Cons e es)
  show ?case
    using Cons.IH [of "unloadStale needed e s"] unloadStale_keys [of needed e s]
    by auto
qed

lemma fold_unloadStale_removes:
  assumes "k \<in> fst ` set es" and "k \<notin> fst ` set needed"
  shows "k \<notin> fst ` set (chunks (fold (unloadStale needed) es s))"
  using assms
proof (induction es arbitrary: s)
  case Nil
  then show ?case by simp
next
  case (Cons e es)
  show ?case
  proof (cases "k = fst e")
    case True
    with Cons.prems have "k \<notin> fst ` set (chunks (unloadStale needed e s))"
      by (simp add: unloadStale_removes)
    then show ?thesis
      using fold_unloadStale_keys [of needed es "unloadStale needed e s"] by auto
  next
    case False
    with Cons.prems have "k \<in> fst ` set es" by auto
    with Cons.IH [of "unloadStale needed e s"] Cons.prems show ?thesis by simp
  qed
qed

lemma unload_loop_keys:
  "fst ` set (chunks (fold (unloadStale needed) (chunks s) s)) \<subseteq> fst ` set (chunks s) \<inter> fst ` set needed"
  using fold_unloadStale_keys [of needed "chunks s" s] fold_unloadStale_removes [of _ "chunks s" needed s]
  by blast

text \<open>The calls of the unload loop are calls of \<open>unloadChunk\<close>.\<close>

lemma fold_unloadStale_calls:
  "\<exists>cs. calls (fold (unloadStale needed) es s) = calls s @ cs \<and> set cs \<subseteq> range UnloadChunk"
proof (induction es arbitrary: s)
  case Nil
  show ?case by simp
next
  case (Cons e es)
  have "calls (unloadStale needed e s) = calls s @ []
      \<or> calls (unloadStale needed e s) = calls s @ [UnloadChunk (fst e)]"
    by (simp add: unloadStale_def split: option.splits)
  then obtain c where c: "calls (unloadStale needed e s) = calls s @ c" "set c \<subseteq> range UnloadChunk"
    by fastforce
  from Cons.IH [of "unloadStale needed e s"] obtain cs
    where "calls (fold (unloadStale needed) es (unloadStale needed e s)) = calls (unloadStale needed e s) @ cs"
      and "set cs \<subseteq> range UnloadChunk"
    by blast
  with c have "calls (fold (unloadStale needed) (e # es) s) = calls s @ (c @ cs) \<and> set (c @ cs) \<subseteq> range UnloadChunk"
    by simp
  then show ?case by blast
qed

lemma fold_unloadChunk_calls:
  "calls (fold (\<lambda>key st. unloadChunk st key) ks s) = calls s @ map UnloadChunk ks"
  by (induction ks arbitrary: s) simp_all

lemma fold_unloadChunk_chunks:
  "fst ` set (chunks (fold (\<lambda>key st. unloadChunk st key) ks s)) = fst ` set (chunks s) - set ks"
proof (induction ks arbitrary: s)
  case Nil
  show ?case by simp
next
  case (Cons k ks)
  have "fst ` set (AList.delete k (chunks s)) = fst ` set (chunks s) - {k}"
    by (auto simp: AList.delete_eq)
  with Cons.IH [of "unloadChunk s k"] show ?case
    by auto
qed

text \<open>The load loop: the store gains the keys of the needed set.\<close>

lemma loadChunk_keys_subset:
  "fst ` set (chunks (loadChunk s x z l)) \<subseteq> insert (x, z) (fst ` set (chunks s))"
  by (auto simp add: loadChunk_unfold [of s x z l] Let_def dom_update)

lemma loadMissing_keys_subset:
  assumes "fst e = (n_x (snd e), n_z (snd e))"
  shows "fst ` set (chunks (loadMissing e s)) \<subseteq> insert (fst e) (fst ` set (chunks s))"
  using assms loadChunk_keys_subset [of s "n_x (snd e)" "n_z (snd e)" "n_lod (snd e)"]
  by (auto simp: loadMissing_def)

lemma loadMissing_keys:
  assumes "initialised s" and "fst e = (n_x (snd e), n_z (snd e))"
    and "0 \<le> n_lod (snd e)" and "n_lod (snd e) < int (length LOD_LEVELS)"
  shows "fst ` set (chunks (loadMissing e s)) = insert (fst e) (fst ` set (chunks s))"
proof (cases "map_of (chunks s) (fst e) = None")
  case True
  from loadChunk_entry [OF assms(1,3,4), of "n_x (snd e)" "n_z (snd e)"] assms(2)
  obtain c where "chunks (loadChunk s (n_x (snd e)) (n_z (snd e)) (n_lod (snd e)))
      = AList.update (fst e) c (chunks s)"
    by auto
  with True show ?thesis
    by (simp add: loadMissing_def dom_update)
next
  case False
  then have "fst e \<in> fst ` set (chunks s)"
    by (simp add: map_of_eq_None_iff)
  moreover from False have "loadMissing e s = s"
    by (auto simp: loadMissing_def)
  ultimately show ?thesis
    by (simp add: insert_absorb)
qed

lemma initialised_loadMissing [simp]: "initialised (loadMissing e s) = initialised s"
  by (simp add: loadMissing_def)

lemma fold_loadMissing_keys_subset:
  assumes "\<forall>e \<in> set al. fst e = (n_x (snd e), n_z (snd e))"
  shows "fst ` set (chunks (fold loadMissing al s)) \<subseteq> fst ` set (chunks s) \<union> fst ` set al"
  using assms
proof (induction al arbitrary: s)
  case Nil
  show ?case by simp
next
  case (Cons e al)
  from Cons.prems have "fst e = (n_x (snd e), n_z (snd e))"
    and rest: "\<forall>e \<in> set al. fst e = (n_x (snd e), n_z (snd e))"
    by simp_all
  then show ?case
    using Cons.IH [OF rest, of "loadMissing e s"] loadMissing_keys_subset [of e s]
    by auto
qed

lemma fold_loadMissing_keys:
  assumes "initialised s"
    and "\<forall>e \<in> set al. fst e = (n_x (snd e), n_z (snd e))
           \<and> 0 \<le> n_lod (snd e) \<and> n_lod (snd e) < int (length LOD_LEVELS)"
  shows "fst ` set (chunks (fold loadMissing al s)) = fst ` set (chunks s) \<union> fst ` set al"
  using assms
proof (induction al arbitrary: s)
  case Nil
  show ?case by simp
next
  case (Cons e al)
  from Cons.prems have e: "fst e = (n_x (snd e), n_z (snd e))" "0 \<le> n_lod (snd e)"
    "n_lod (snd e) < int (length LOD_LEVELS)"
    and rest: "\<forall>e \<in> set al. fst e = (n_x (snd e), n_z (snd e))
           \<and> 0 \<le> n_lod (snd e) \<and> n_lod (snd e) < int (length LOD_LEVELS)"
    by simp_all
  from Cons.prems(1) have "initialised (loadMissing e s)"
    by simp
  from Cons.IH [OF this rest] loadMissing_keys [OF Cons.prems(1) e]
  show ?case
    by auto
qed

lemma loadMissing_lods:
  assumes "initialised s" and "fst e = (n_x (snd e), n_z (snd e))"
    and "0 \<le> n_lod (snd e)" and "n_lod (snd e) < int (length LOD_LEVELS)"
    and "map_of (chunks (loadMissing e s)) k = Some c"
  shows "map_of (chunks s) k = Some c \<or> (k = fst e \<and> lodLevel c = n_lod (snd e))"
proof (cases "map_of (chunks s) (fst e) = None")
  case True
  from loadChunk_entry [OF assms(1,3,4), of "n_x (snd e)" "n_z (snd e)"] assms(2)
  obtain c' where "chunks (loadChunk s (n_x (snd e)) (n_z (snd e)) (n_lod (snd e)))
      = AList.update (fst e) c' (chunks s)" and "lodLevel c' = n_lod (snd e)"
    by auto
  with True assms(5) show ?thesis
    by (auto simp: loadMissing_def update_conv' split: if_splits)
next
  case False
  with assms(5) show ?thesis
    by (simp add: loadMissing_def)
qed

lemma fold_loadMissing_lods:
  assumes "initialised s"
    and "\<forall>e \<in> set al. fst e = (n_x (snd e), n_z (snd e))
           \<and> 0 \<le> n_lod (snd e) \<and> n_lod (snd e) < int (length LOD_LEVELS)"
    and "map_of (chunks (fold loadMissing al s)) k = Some c"
  shows "map_of (chunks s) k = Some c \<or> (\<exists>e \<in> set al. k = fst e \<and> lodLevel c = n_lod (snd e))"
  using assms
proof (induction al arbitrary: s)
  case Nil
  then show ?case by simp
next
  case (Cons e al)
  from Cons.prems have e: "fst e = (n_x (snd e), n_z (snd e))" "0 \<le> n_lod (snd e)"
    "n_lod (snd e) < int (length LOD_LEVELS)"
    and rest: "\<forall>e \<in> set al. fst e = (n_x (snd e), n_z (snd e))
           \<and> 0 \<le> n_lod (snd e) \<and> n_lod (snd e) < int (length LOD_LEVELS)"
    by simp_all
  from Cons.prems(1) have init: "initialised (loadMissing e s)"
    by simp
  from Cons.prems(3) have "map_of (chunks (fold loadMissing al (loadMissing e s))) k = Some c"
    by simp
  from Cons.IH [OF init rest this]
  show ?case
  proof
    assume "map_of (chunks (loadMissing e s)) k = Some c"
    from loadMissing_lods [OF Cons.prems(1) e this] show ?thesis
      by auto
  next
    assume "\<exists>e \<in> set al. k = fst e \<and> lodLevel c = n_lod (snd e)"
    then show ?thesis by auto
  qed
qed

text \<open>The calls of the load loop.\<close>

lemma loadMissing_calls:
  "calls (loadMissing e s) = calls s @ []
   \<or> calls (loadMissing e s) = calls s @ [LoadChunk (n_x (snd e)) (n_z (snd e)) (n_lod (snd e))]"
  by (simp add: loadMissing_def)

lemma fold_loadMissing_calls:
  "\<exists>cs. calls (fold loadMissing al s) = calls s @ cs
        \<and> set cs \<subseteq> (\<lambda>e. LoadChunk (n_x (snd e)) (n_z (snd e)) (n_lod (snd e))) ` set al"
proof (induction al arbitrary: s)
  case Nil
  show ?case by simp
next
  case (Cons e al)
  from loadMissing_calls [of e s] obtain c where c: "calls (loadMissing e s) = calls s @ c"
    "set c \<subseteq> {LoadChunk (n_x (snd e)) (n_z (snd e)) (n_lod (snd e))}"
    by fastforce
  from Cons.IH [of "loadMissing e s"] obtain cs
    where cs: "calls (fold loadMissing al (loadMissing e s)) = calls (loadMissing e s) @ cs"
      "set cs \<subseteq> (\<lambda>e. LoadChunk (n_x (snd e)) (n_z (snd e)) (n_lod (snd e))) ` set al"
    by blast
  from c cs have "calls (fold loadMissing (e # al) s) = calls s @ (c @ cs)
      \<and> set (c @ cs) \<subseteq> (\<lambda>e. LoadChunk (n_x (snd e)) (n_z (snd e)) (n_lod (snd e))) ` set (e # al)"
    by auto
  then show ?case by blast
qed

lemma fold_loadMissing_called:
  assumes "\<forall>e \<in> set al. fst e = (n_x (snd e), n_z (snd e))"
    and "distinct (map fst al)" and "e \<in> set al" and "fst e \<notin> fst ` set (chunks s)"
  shows "\<exists>cs. calls (fold loadMissing al s) = calls s @ cs
           \<and> LoadChunk (n_x (snd e)) (n_z (snd e)) (n_lod (snd e)) \<in> set cs"
  using assms
proof (induction al arbitrary: s)
  case Nil
  then show ?case by simp
next
  case (Cons a al)
  from Cons.prems(1) have a: "fst a = (n_x (snd a), n_z (snd a))"
    and rest: "\<forall>e \<in> set al. fst e = (n_x (snd e), n_z (snd e))"
    by simp_all
  show ?case
  proof (cases "e = a")
    case True
    with Cons.prems(4) have "map_of (chunks s) (fst a) = None"
      by (simp add: map_of_eq_None_iff)
    then have c: "calls (loadMissing a s)
        = calls s @ [LoadChunk (n_x (snd a)) (n_z (snd a)) (n_lod (snd a))]"
      by (simp add: loadMissing_def)
    from fold_loadMissing_calls [of al "loadMissing a s"] obtain cs
      where "calls (fold loadMissing al (loadMissing a s)) = calls (loadMissing a s) @ cs"
      by blast
    with c True have "calls (fold loadMissing (a # al) s)
        = calls s @ (LoadChunk (n_x (snd e)) (n_z (snd e)) (n_lod (snd e)) # cs)"
      by simp
    then show ?thesis
      by (metis list.set_intros(1))
  next
    case False
    with Cons.prems(3) have mem: "e \<in> set al" by simp
    from Cons.prems(2) have "fst a \<notin> fst ` set al"
      by simp
    with mem have "fst e \<noteq> fst a"
      by (metis imageI)
    with Cons.prems(4) loadMissing_keys_subset [OF a, of s]
    have "fst e \<notin> fst ` set (chunks (loadMissing a s))"
      by auto
    with Cons.IH [OF rest _ mem, of "loadMissing a s"] Cons.prems(2)
    obtain cs where cs: "calls (fold loadMissing al (loadMissing a s)) = calls (loadMissing a s) @ cs"
      "LoadChunk (n_x (snd e)) (n_z (snd e)) (n_lod (snd e)) \<in> set cs"
      by auto
    from loadMissing_calls [of a s] obtain c where "calls (loadMissing a s) = calls s @ c"
      by blast
    with cs have "calls (fold loadMissing (a # al) s) = calls s @ (c @ cs)
        \<and> LoadChunk (n_x (snd e)) (n_z (snd e)) (n_lod (snd e)) \<in> set (c @ cs)"
      by simp
    then show ?thesis by blast
  qed
qed

section \<open>A refresh as a whole\<close>

lemma neededOK_entries:
  assumes "neededOK cfg camX camZ al"
  shows "\<forall>e \<in> set al. fst e = (n_x (snd e), n_z (snd e))
           \<and> 0 \<le> n_lod (snd e) \<and> n_lod (snd e) < int (length LOD_LEVELS)"
proof
  fix e assume "e \<in> set al"
  with assms have "fst e = (n_x (snd e), n_z (snd e))"
    and "n_lod (snd e) = getLODLevel cfg (chunkDistance camX camZ (n_x (snd e)) (n_z (snd e)))"
    and "n_lod (snd e) \<noteq> - 1"
    by (auto simp: neededOK_def)
  then show "fst e = (n_x (snd e), n_z (snd e))
           \<and> 0 \<le> n_lod (snd e) \<and> n_lod (snd e) < int (length LOD_LEVELS)"
    using getLODLevel_valid [of cfg "chunkDistance camX camZ (n_x (snd e)) (n_z (snd e))"]
    by simp
qed

lemma throttled_refresh_unchanged:
  assumes "distanceTo (lastUpdatePos s) (camera_position s) < UPDATE_THRESHOLD"
  shows "updateChunks s = s"
  using assms by (simp add: updateChunks_def Let_def)

lemma updateChunks_applied:
  assumes "\<not> distanceTo (lastUpdatePos s) (camera_position s) < UPDATE_THRESHOLD"
  shows "updateChunks s =
     fold loadMissing
       (neededChunks (currentConfig s) (vx (camera_position s)) (vz (camera_position s)))
       (fold (unloadStale
                (neededChunks (currentConfig s) (vx (camera_position s)) (vz (camera_position s))))
          (chunks s) (s\<lparr>lastUpdatePos := camera_position s\<rparr>))"
  using assms by (simp add: updateChunks_def Let_def)

lemma updateChunks_sameShared:
  "sameShared
     (s\<lparr>lastUpdatePos :=
          (if distanceTo (lastUpdatePos s) (camera_position s) < UPDATE_THRESHOLD
           then lastUpdatePos s else camera_position s)\<rparr>)
     (updateChunks s)"
proof (cases "distanceTo (lastUpdatePos s) (camera_position s) < UPDATE_THRESHOLD")
  case True
  then show ?thesis
    by (simp add: throttled_refresh_unchanged sameShared_def)
next
  case False
  let ?n = "neededChunks (currentConfig s) (vx (camera_position s)) (vz (camera_position s))"
  let ?s1 = "s\<lparr>lastUpdatePos := camera_position s\<rparr>"
  have "sameShared ?s1 (fold (unloadStale ?n) (chunks s) ?s1)"
    by (rule fold_unloadStale_sameShared)
  moreover have "sameShared (fold (unloadStale ?n) (chunks s) ?s1)
      (fold loadMissing ?n (fold (unloadStale ?n) (chunks s) ?s1))"
    by (rule fold_loadMissing_sameShared)
  ultimately have "sameShared ?s1 (updateChunks s)"
    unfolding updateChunks_applied [OF False] by (rule sameShared_trans)
  with False show ?thesis
    by simp
qed

lemma updateChunks_fields [simp]:
  "currentConfig (updateChunks s) = currentConfig s"
  "camera_position (updateChunks s) = camera_position s"
  "noiseTable (updateChunks s) = noiseTable s"
  "initialised (updateChunks s) = initialised s"
  "lastUpdatePos (updateChunks s) =
     (if distanceTo (lastUpdatePos s) (camera_position s) < UPDATE_THRESHOLD
      then lastUpdatePos s else camera_position s)"
  using updateChunks_sameShared [of s]
  by (simp_all add: sameShared_def initialised_def)

lemma updateChunks_keys_subset:
  assumes "\<not> distanceTo (lastUpdatePos s) (camera_position s) < UPDATE_THRESHOLD"
  shows "fst ` set (chunks (updateChunks s))
      \<subseteq> fst ` set (neededChunks (currentConfig s) (vx (camera_position s)) (vz (camera_position s)))"
proof -
  let ?n = "neededChunks (currentConfig s) (vx (camera_position s)) (vz (camera_position s))"
  let ?s1 = "s\<lparr>lastUpdatePos := camera_position s\<rparr>"
  let ?s2 = "fold (unloadStale ?n) (chunks s) ?s1"
  have ok: "\<forall>e \<in> set ?n. fst e = (n_x (snd e), n_z (snd e))"
    using neededOK_entries [OF neededChunks_OK] by blast
  have "fst ` set (chunks ?s2) \<subseteq> fst ` set ?n"
    using unload_loop_keys [of ?n ?s1] by simp
  with fold_loadMissing_keys_subset [OF ok, of ?s2] show ?thesis
    unfolding updateChunks_applied [OF assms] by blast
qed

lemma updateChunks_keys:
  assumes "\<not> distanceTo (lastUpdatePos s) (camera_position s) < UPDATE_THRESHOLD"
    and "initialised s"
  shows "fst ` set (chunks (updateChunks s))
       = fst ` set (neededChunks (currentConfig s) (vx (camera_position s)) (vz (camera_position s)))"
proof -
  let ?n = "neededChunks (currentConfig s) (vx (camera_position s)) (vz (camera_position s))"
  let ?s1 = "s\<lparr>lastUpdatePos := camera_position s\<rparr>"
  let ?s2 = "fold (unloadStale ?n) (chunks s) ?s1"
  have "sameShared ?s1 ?s2"
    by (rule fold_unloadStale_sameShared)
  with assms(2) have init: "initialised ?s2"
    by (simp add: sameShared_initialised)
  have "fst ` set (chunks ?s2) \<subseteq> fst ` set ?n"
    using unload_loop_keys [of ?n ?s1] by simp
  with fold_loadMissing_keys [OF init neededOK_entries [OF neededChunks_OK]] show ?thesis
    unfolding updateChunks_applied [OF assms(1)] by blast
qed

lemma updateChunks_calls:
  "\<exists>cs. calls (updateChunks s) = calls s @ cs
        \<and> (\<forall>x z l. LoadChunk x z l \<in> set cs \<longrightarrow>
              \<not> distanceTo (lastUpdatePos s) (camera_position s) < UPDATE_THRESHOLD
              \<and> (x, z) \<in> fst ` set (neededChunks (currentConfig s)
                                     (vx (camera_position s)) (vz (camera_position s)))
              \<and> l = getLODLevel (currentConfig s)
                      (chunkDistance (vx (camera_position s)) (vz (camera_position s)) x z))"
proof (cases "distanceTo (lastUpdatePos s) (camera_position s) < UPDATE_THRESHOLD")
  case True
  then have "calls (updateChunks s) = calls s @ []"
    by (simp add: throttled_refresh_unchanged)
  then show ?thesis
    by (metis empty_iff empty_set)
next
  case False
  let ?n = "neededChunks (currentConfig s) (vx (camera_position s)) (vz (camera_position s))"
  let ?s1 = "s\<lparr>lastUpdatePos := camera_position s\<rparr>"
  let ?s2 = "fold (unloadStale ?n) (chunks s) ?s1"
  from fold_unloadStale_calls [of ?n "chunks s" ?s1] obtain c1
    where c1: "calls ?s2 = calls s @ c1" "set c1 \<subseteq> range UnloadChunk"
    by auto
  from fold_loadMissing_calls [of ?n ?s2] obtain c2
    where c2: "calls (fold loadMissing ?n ?s2) = calls ?s2 @ c2"
      "set c2 \<subseteq> (\<lambda>e. LoadChunk (n_x (snd e)) (n_z (snd e)) (n_lod (snd e))) ` set ?n"
    by blast
  have "calls (updateChunks s) = calls s @ (c1 @ c2)"
    unfolding updateChunks_applied [OF False] using c1 c2 by simp
  moreover have "(x, z) \<in> fst ` set ?n
      \<and> l = getLODLevel (currentConfig s)
              (chunkDistance (vx (camera_position s)) (vz (camera_position s)) x z)"
    if "LoadChunk x z l \<in> set (c1 @ c2)" for x z l
  proof -
    from that c1(2) have "LoadChunk x z l \<in> set c2"
      by auto
    with c2(2) obtain e where e: "e \<in> set ?n" "x = n_x (snd e)" "z = n_z (snd e)" "l = n_lod (snd e)"
      by auto
    with neededChunks_OK [of "currentConfig s" "vx (camera_position s)" "vz (camera_position s)"]
    have "fst e = (x, z)" and "l = getLODLevel (currentConfig s)
              (chunkDistance (vx (camera_position s)) (vz (camera_position s)) x z)"
      by (auto simp: neededOK_def)
    with e(1) show ?thesis
      by (metis imageI)
  qed
  ultimately show ?thesis
    using False by blast
qed

lemma updateChunks_loads:
  assumes "\<not> distanceTo (lastUpdatePos s) (camera_position s) < UPDATE_THRESHOLD"
    and "(x, z) \<in> fst ` set (neededChunks (currentConfig s)
                                (vx (camera_position s)) (vz (camera_position s)))"
    and "(x, z) \<notin> fst ` set (chunks s)"
  shows "LoadChunk x z (getLODLevel (currentConfig s)
            (chunkDistance (vx (camera_position s)) (vz (camera_position s)) x z))
         \<in> set (newCalls s (updateChunks s))"
proof -
  let ?n = "neededChunks (currentConfig s) (vx (camera_position s)) (vz (camera_position s))"
  let ?s1 = "s\<lparr>lastUpdatePos := camera_position s\<rparr>"
  let ?s2 = "fold (unloadStale ?n) (chunks s) ?s1"
  have ok: "neededOK (currentConfig s) (vx (camera_position s)) (vz (camera_position s)) ?n"
    by (rule neededChunks_OK)
  from assms(2) obtain e where e: "e \<in> set ?n" "fst e = (x, z)"
    by auto
  with ok have xz: "n_x (snd e) = x" "n_z (snd e) = z"
    and lod: "n_lod (snd e) = getLODLevel (currentConfig s)
              (chunkDistance (vx (camera_position s)) (vz (camera_position s)) x z)"
    by (auto simp: neededOK_def)
  have "fst ` set (chunks ?s2) \<subseteq> fst ` set (chunks s)"
    using unload_loop_keys [of ?n ?s1] by simp
  with assms(3) e(2) have notin: "fst e \<notin> fst ` set (chunks ?s2)"
    by auto
  from ok have dist: "distinct (map fst ?n)"
    by (simp add: neededOK_def)
  from neededOK_entries [OF ok] have keyed: "\<forall>e \<in> set ?n. fst e = (n_x (snd e), n_z (snd e))"
    by blast
  from fold_loadMissing_called [OF keyed dist e(1) notin] obtain c2
    where c2: "calls (fold loadMissing ?n ?s2) = calls ?s2 @ c2"
      "LoadChunk (n_x (snd e)) (n_z (snd e)) (n_lod (snd e)) \<in> set c2"
    by blast
  from fold_unloadStale_calls [of ?n "chunks s" ?s1] obtain c1
    where c1: "calls ?s2 = calls s @ c1"
    by auto
  have "newCalls s (updateChunks s) = c1 @ c2"
    unfolding updateChunks_applied [OF assms(1)] newCalls_def using c1 c2 by simp
  with c2(2) xz lod show ?thesis
    by simp
qed

lemma updateChunks_lods:
  assumes "\<not> distanceTo (lastUpdatePos s) (camera_position s) < UPDATE_THRESHOLD"
    and "initialised s" and "chunks s = []"
    and "map_of (chunks (updateChunks s)) k = Some c"
  shows "lodLevel c = getLODLevel (currentConfig s)
            (chunkDistance (vx (camera_position s)) (vz (camera_position s)) (fst k) (snd k))"
proof -
  let ?n = "neededChunks (currentConfig s) (vx (camera_position s)) (vz (camera_position s))"
  let ?s1 = "s\<lparr>lastUpdatePos := camera_position s\<rparr>"
  have ok: "neededOK (currentConfig s) (vx (camera_position s)) (vz (camera_position s)) ?n"
    by (rule neededChunks_OK)
  from assms(3) have s2: "fold (unloadStale ?n) (chunks s) ?s1 = ?s1"
    by simp
  from assms(2) have init: "initialised ?s1"
    by simp
  from assms(4) have "map_of (chunks (fold loadMissing ?n ?s1)) k = Some c"
    unfolding updateChunks_applied [OF assms(1)] s2 .
  from fold_loadMissing_lods [OF init neededOK_entries [OF ok] this] assms(3)
  obtain e where "e \<in> set ?n" "k = fst e" "lodLevel c = n_lod (snd e)"
    by auto
  with ok show ?thesis
    by (auto simp: neededOK_def)
qed

section \<open>Evaluating distances\<close>

lemma sqrt_less_iff:
  assumes "0 < c"
  shows "sqrt x < c \<longleftrightarrow> x < c\<^sup>2"
proof -
  from assms have "sqrt (c\<^sup>2) = c"
    by simp
  then have "sqrt x < c \<longleftrightarrow> sqrt x < sqrt (c\<^sup>2)"
    by simp
  then show ?thesis
    by (simp only: real_sqrt_less_iff)
qed

lemma far_from_sentinel:
  "\<not> distanceTo sentinelPos (0, 15, 40) < UPDATE_THRESHOLD"
  by (simp add: distanceTo_def sentinelPos_def UPDATE_THRESHOLD_def vx_def vy_def vz_def
      sqrt_less_iff)

lemma constructed_not_throttled:
  "\<not> distanceTo (lastUpdatePos (constructed P rnd pos cfg))
        (camera_position (constructed P rnd pos cfg)) < UPDATE_THRESHOLD"
  by (simp add: far_from_sentinel)

lemma moveCamera_fields [simp]:
  "camera_position (moveCamera s p) = p"
  "lastUpdatePos (moveCamera s p) = lastUpdatePos s"
  "chunks (moveCamera s p) = chunks s"
  "calls (moveCamera s p) = calls s"
  "currentConfig (moveCamera s p) = currentConfig s"
  "initialised (moveCamera s p) = initialised s"
  by (simp_all add: moveCamera_def)

section \<open>The movement threshold\<close>

text \<open>
  Claim C4. When the camera is strictly less than the movement threshold of 5 units away
  from the position of the last applied refresh, a refresh changes nothing: the engine
  state after it is the state before it, so no chunk is loaded and none is unloaded.
\<close>

theorem updateChunks_throttled:
  assumes "distanceTo (lastUpdatePos (updateChunks s)) p < 5"
  shows "updateChunks (moveCamera (updateChunks s) p) = moveCamera (updateChunks s) p
       \<and> chunks (updateChunks (moveCamera (updateChunks s) p)) = chunks (updateChunks s)
       \<and> newCalls (updateChunks s) (updateChunks (moveCamera (updateChunks s) p)) = []"
proof -
  from assms have "distanceTo (lastUpdatePos (moveCamera (updateChunks s) p))
      (camera_position (moveCamera (updateChunks s) p)) < UPDATE_THRESHOLD"
    by (simp only: moveCamera_fields UPDATE_THRESHOLD_def)
  then have "updateChunks (moveCamera (updateChunks s) p) = moveCamera (updateChunks s) p"
    by (rule throttled_refresh_unchanged)
  then show ?thesis
    by (simp add: newCalls_def)
qed

theorem updateChunks_throttled_witness:
  "distanceTo (lastUpdatePos (updateChunks (constructed exampleTable exampleStream 0 GoldenFields)))
     (3, 15, 43) < 5
   \<and> lastUpdatePos (updateChunks (constructed exampleTable exampleStream 0 GoldenFields)) = (0, 15, 40)
   \<and> updateChunks (moveCamera (updateChunks (constructed exampleTable exampleStream 0 GoldenFields)) (3, 15, 43))
     = moveCamera (updateChunks (constructed exampleTable exampleStream 0 GoldenFields)) (3, 15, 43)
   \<and> newCalls (updateChunks (constructed exampleTable exampleStream 0 GoldenFields))
        (updateChunks (moveCamera (updateChunks (constructed exampleTable exampleStream 0 GoldenFields)) (3, 15, 43)))
     = []"
proof -
  have pos: "lastUpdatePos (updateChunks (constructed exampleTable exampleStream 0 GoldenFields))
      = (0, 15, 40)"
    by (simp add: far_from_sentinel)
  have near: "distanceTo (0, 15, 40) (3, 15, 43) < 5"
    by (simp add: distanceTo_def vx_def vy_def vz_def sqrt_less_iff)
  from near pos
  have hyp: "distanceTo (lastUpdatePos (updateChunks (constructed exampleTable exampleStream 0 GoldenFields)))
     (3, 15, 43) < 5"
    by simp
  from updateChunks_throttled [OF hyp] hyp pos show ?thesis
    by blast
qed

section \<open>Membership in the needed set\<close>

lemma neededChunks_memberI:
  assumes "x = of_int (Math_round (camX / CHUNK_SIZE)) * CHUNK_SIZE
                 - BASE_MAX_DISTANCE * effectiveBias cfg + real i * CHUNK_SIZE"
    and "x \<le> of_int (Math_round (camX / CHUNK_SIZE)) * CHUNK_SIZE + BASE_MAX_DISTANCE * effectiveBias cfg"
    and "z = of_int (Math_round (camZ / CHUNK_SIZE)) * CHUNK_SIZE
                 - BASE_MAX_DISTANCE * effectiveBias cfg + real j * CHUNK_SIZE"
    and "z \<le> of_int (Math_round (camZ / CHUNK_SIZE)) * CHUNK_SIZE + BASE_MAX_DISTANCE * effectiveBias cfg"
    and "getLODLevel cfg (chunkDistance camX camZ x z) \<noteq> - 1"
  shows "(x, z) \<in> fst ` set (neededChunks cfg camX camZ)"
  unfolding neededChunks_keys chunkRange_mem using assms by auto

lemma chunkDistance_nonneg: "0 \<le> chunkDistance camX camZ x z"
  by (simp add: chunkDistance_def)

lemma getLODLevel_in_range:
  assumes "getLODLevel cfg d \<noteq> - 1" and "0 \<le> d"
  shows "d < BASE_MAX_DISTANCE * effectiveBias cfg"
proof -
  from assms(1) have "d < 45 * effectiveBias cfg \<or> d < 85 * effectiveBias cfg
      \<or> d < 150 * effectiveBias cfg"
    by (auto simp: getLODLevel_unfold split: if_splits)
  with assms(2) have "0 < effectiveBias cfg"
    by (auto simp: zero_less_mult_iff dest: le_less_trans)
  with assms(1) show ?thesis
    by (auto simp: getLODLevel_unfold BASE_MAX_DISTANCE_eq split: if_splits)
qed

section \<open>A zero bias\<close>

lemma neededStep_zero_bias:
  "neededStep (cfg\<lparr>lodBias := 0\<rparr>) camX camZ x = neededStep (cfg\<lparr>lodBias := 1\<rparr>) camX camZ x"
  by (intro ext) (simp add: neededStep_def getLODLevel_def effectiveBias_def)

text \<open>The centre cell is at most half a chunk away from the camera on each axis.\<close>

lemma centre_close:
  "\<bar>of_int (Math_round (c / CHUNK_SIZE)) * CHUNK_SIZE - c\<bar> \<le> 15"
proof -
  let ?m = "Math_round (c / CHUNK_SIZE)"
  have lo: "of_int ?m \<le> c / 30 + 1 / 2"
    unfolding Math_round_def CHUNK_SIZE_def by (rule of_int_floor_le)
  have hi: "c / 30 + 1 / 2 < of_int ?m + 1"
    unfolding Math_round_def CHUNK_SIZE_def by linarith
  from lo have "of_int ?m * 30 - c \<le> 15"
    by (simp add: field_simps)
  moreover from hi have "- 15 \<le> of_int ?m * 30 - c"
    by (simp add: field_simps)
  ultimately show ?thesis
    by (simp add: CHUNK_SIZE_def abs_le_iff)
qed

lemma centre_distance:
  "chunkDistance camX camZ
     (of_int (Math_round (camX / CHUNK_SIZE)) * CHUNK_SIZE)
     (of_int (Math_round (camZ / CHUNK_SIZE)) * CHUNK_SIZE) < 45"
proof -
  let ?dx = "of_int (Math_round (camX / CHUNK_SIZE)) * CHUNK_SIZE - camX"
  let ?dz = "of_int (Math_round (camZ / CHUNK_SIZE)) * CHUNK_SIZE - camZ"
  have "?dx\<^sup>2 \<le> 15\<^sup>2" "?dz\<^sup>2 \<le> 15\<^sup>2"
    using centre_close [of camX] centre_close [of camZ]
    by (simp_all only: abs_le_square_iff [symmetric] abs_numeral)
  then have "?dx\<^sup>2 + ?dz\<^sup>2 < 45\<^sup>2"
    by simp
  moreover have "(0::real) < 45"
    by simp
  ultimately show ?thesis
    unfolding chunkDistance_def by (simp only: sqrt_less_iff)
qed

lemma centre_needed:
  assumes "effectiveBias cfg = 1"
  shows "(of_int (Math_round (camX / CHUNK_SIZE)) * CHUNK_SIZE,
          of_int (Math_round (camZ / CHUNK_SIZE)) * CHUNK_SIZE)
         \<in> fst ` set (neededChunks cfg camX camZ)"
proof (rule neededChunks_memberI [where i = 5 and j = 5])
  show "getLODLevel cfg (chunkDistance camX camZ
     (of_int (Math_round (camX / CHUNK_SIZE)) * CHUNK_SIZE)
     (of_int (Math_round (camZ / CHUNK_SIZE)) * CHUNK_SIZE)) \<noteq> - 1"
    using centre_distance [of camX camZ] assms by (simp add: getLODLevel_unfold)
qed (simp_all add: assms BASE_MAX_DISTANCE_eq CHUNK_SIZE_def)

text \<open>
  Claim C10. A configuration with \<open>lodBias = 0\<close> behaves as one with \<open>lodBias = 1\<close>: the
  LOD level of every distance and the needed set of every camera position are the same.
  So a zero bias does not give zero chunks: for every camera position the needed set
  holds the centre cell, the one the camera position rounds to, and is not empty.
\<close>

theorem zero_bias_is_default:
  "getLODLevel (cfg\<lparr>lodBias := 0\<rparr>) d = getLODLevel (cfg\<lparr>lodBias := 1\<rparr>) d
   \<and> neededChunks (cfg\<lparr>lodBias := 0\<rparr>) camX camZ = neededChunks (cfg\<lparr>lodBias := 1\<rparr>) camX camZ
   \<and> (of_int (Math_round (camX / CHUNK_SIZE)) * CHUNK_SIZE,
       of_int (Math_round (camZ / CHUNK_SIZE)) * CHUNK_SIZE)
      \<in> fst ` set (neededChunks (cfg\<lparr>lodBias := 0\<rparr>) camX camZ)
   \<and> neededChunks (cfg\<lparr>lodBias := 0\<rparr>) camX camZ \<noteq> []"
proof -
  have eq: "getLODLevel (cfg\<lparr>lodBias := 0\<rparr>) d = getLODLevel (cfg\<lparr>lodBias := 1\<rparr>) d
      \<and> neededChunks (cfg\<lparr>lodBias := 0\<rparr>) camX camZ = neededChunks (cfg\<lparr>lodBias := 1\<rparr>) camX camZ"
    by (simp add: neededChunks_def neededStep_zero_bias getLODLevel_def effectiveBias_def)
  have mem: "(of_int (Math_round (camX / CHUNK_SIZE)) * CHUNK_SIZE,
       of_int (Math_round (camZ / CHUNK_SIZE)) * CHUNK_SIZE)
      \<in> fst ` set (neededChunks (cfg\<lparr>lodBias := 0\<rparr>) camX camZ)"
    by (rule centre_needed) (simp add: effectiveBias_def)
  then have "neededChunks (cfg\<lparr>lodBias := 0\<rparr>) camX camZ \<noteq> []"
    by auto
  with eq mem show ?thesis
    by simp
qed

section \<open>The range of a refresh\<close>

text \<open>
  Claim C3, as amended. After a refresh that is applied (the camera is at least the
  movement threshold away from the position of the last applied refresh), for every
  configuration, every chunk in the store is at a distance from the camera, in the ground
  plane, strictly below 150 times the bias that the code uses (\<open>lodBias\<close>, or 1 when
  \<open>lodBias\<close> is 0).
\<close>

theorem refresh_within_range:
  assumes "\<not> distanceTo (lastUpdatePos s) (camera_position s) < UPDATE_THRESHOLD"
  shows "\<forall>k \<in> fst ` set (chunks (updateChunks s)).
           chunkDistance (vx (camera_position s)) (vz (camera_position s)) (fst k) (snd k)
             < BASE_MAX_DISTANCE * effectiveBias (currentConfig s)"
proof
  fix k assume "k \<in> fst ` set (chunks (updateChunks s))"
  with updateChunks_keys_subset [OF assms]
  have "k \<in> fst ` set (neededChunks (currentConfig s) (vx (camera_position s)) (vz (camera_position s)))"
    by blast
  then have "getLODLevel (currentConfig s)
      (chunkDistance (vx (camera_position s)) (vz (camera_position s)) (fst k) (snd k)) \<noteq> - 1"
    by (simp add: neededChunks_keys)
  then show "chunkDistance (vx (camera_position s)) (vz (camera_position s)) (fst k) (snd k)
             < BASE_MAX_DISTANCE * effectiveBias (currentConfig s)"
    by (rule getLODLevel_in_range) (rule chunkDistance_nonneg)
qed

lemma first_frame_GoldenFields:
  "(0, 30) \<in> fst ` set (neededChunks GoldenFields 0 40)"
  by (rule neededChunks_memberI [where i = 5 and j = 5])
    (simp_all add: Math_round_def CHUNK_SIZE_def BASE_MAX_DISTANCE_eq effectiveBias_def
      GoldenFields_def getLODLevel_unfold chunkDistance_def sqrt_less_iff)

lemma less_sqrt_iff:
  assumes "0 \<le> c"
  shows "c < sqrt x \<longleftrightarrow> c\<^sup>2 < x"
proof -
  from assms have "sqrt (c\<^sup>2) = c"
    by simp
  then have "c < sqrt x \<longleftrightarrow> sqrt (c\<^sup>2) < sqrt x"
    by simp
  then show ?thesis
    by (simp only: real_sqrt_less_iff)
qed

lemma newGrassEngine_fields [simp]:
  "initialised (newGrassEngine P rnd pos cfg)"
  "currentConfig (newGrassEngine P rnd pos cfg) = cfg"
  "camera_position (newGrassEngine P rnd pos cfg) = (0, 15, 40)"
  "lastUpdatePos (newGrassEngine P rnd pos cfg) = (0, 15, 40)"
  by (simp_all add: newGrassEngine_def animate_def far_from_sentinel)

lemma newGrassEngine_keys:
  "fst ` set (chunks (newGrassEngine P rnd pos cfg)) = fst ` set (neededChunks cfg 0 40)"
  using updateChunks_keys [OF constructed_not_throttled, of P rnd pos cfg]
  by (simp add: newGrassEngine_def animate_def vx_def vz_def)

theorem refresh_within_range_witness:
  "\<not> distanceTo (lastUpdatePos (constructed exampleTable exampleStream 0 GoldenFields))
        (camera_position (constructed exampleTable exampleStream 0 GoldenFields)) < UPDATE_THRESHOLD
   \<and> (0, 30) \<in> fst ` set (chunks (updateChunks (constructed exampleTable exampleStream 0 GoldenFields)))
   \<and> camera_position (constructed exampleTable exampleStream 0 GoldenFields) = (0, 15, 40)
   \<and> chunkDistance 0 40 0 30
        < BASE_MAX_DISTANCE * effectiveBias (currentConfig (constructed exampleTable exampleStream 0 GoldenFields))"
proof -
  let ?S = "constructed exampleTable exampleStream 0 GoldenFields"
  have nt: "\<not> distanceTo (lastUpdatePos ?S) (camera_position ?S) < UPDATE_THRESHOLD"
    by (rule constructed_not_throttled)
  have mem: "(0, 30) \<in> fst ` set (chunks (updateChunks ?S))"
    using newGrassEngine_keys [of exampleTable exampleStream 0 GoldenFields] first_frame_GoldenFields
    by (simp add: newGrassEngine_def animate_def)
  from refresh_within_range [OF nt, THEN bspec, OF mem] nt mem show ?thesis
    by (simp add: vx_def vz_def)
qed

text \<open>
  Two runs against the claim as stated. In the first the camera moves from \<open>(14, 15, 0)\<close>,
  where a refresh is applied, to \<open>(18, 15, 0)\<close>, where the refresh is throttled: the chunk
  at \<open>(-120, -60)\<close> stays loaded at a distance above 150. In the second \<open>lodBias\<close> is 0 and
  the first frame loads the chunk at \<open>(0, 30)\<close>, at distance 10 from the camera, above
  \<open>150 * 0\<close>.
\<close>

theorem refresh_range_counterexample:
  "(- 120, - 60) \<in> fst ` set (chunks (updateChunks (moveCamera
       (updateChunks (moveCamera (newGrassEngine exampleTable exampleStream 0 GoldenFields) (14, 15, 0)))
       (18, 15, 0))))
   \<and> camera_position (updateChunks (moveCamera
       (updateChunks (moveCamera (newGrassEngine exampleTable exampleStream 0 GoldenFields) (14, 15, 0)))
       (18, 15, 0))) = (18, 15, 0)
   \<and> BASE_MAX_DISTANCE * lodBias GoldenFields < chunkDistance 18 0 (- 120) (- 60)
   \<and> (0, 30) \<in> fst ` set (chunks (newGrassEngine exampleTable exampleStream 0 (GoldenFields\<lparr>lodBias := 0\<rparr>)))
   \<and> camera_position (newGrassEngine exampleTable exampleStream 0 (GoldenFields\<lparr>lodBias := 0\<rparr>)) = (0, 15, 40)
   \<and> BASE_MAX_DISTANCE * lodBias (GoldenFields\<lparr>lodBias := 0\<rparr>) < chunkDistance 0 40 0 30"
proof -
  let ?N = "newGrassEngine exampleTable exampleStream 0 GoldenFields"
  let ?A = "moveCamera ?N (14, 15, 0)"
  let ?B = "updateChunks ?A"
  let ?D = "moveCamera ?B (18, 15, 0)"
  have ntA: "\<not> distanceTo (lastUpdatePos ?A) (camera_position ?A) < UPDATE_THRESHOLD"
    by (simp add: distanceTo_def vx_def vy_def vz_def UPDATE_THRESHOLD_def sqrt_less_iff)
  have "(- 120, - 60) \<in> fst ` set (neededChunks GoldenFields 14 0)"
    by (rule neededChunks_memberI [where i = 1 and j = 3])
      (simp_all add: Math_round_def CHUNK_SIZE_def BASE_MAX_DISTANCE_eq effectiveBias_def
        GoldenFields_def getLODLevel_unfold chunkDistance_def sqrt_less_iff)
  with updateChunks_keys [OF ntA] have memB: "(- 120, - 60) \<in> fst ` set (chunks ?B)"
    by (simp add: vx_def vz_def)
  from ntA have posB: "lastUpdatePos ?B = (14, 15, 0)"
    by simp
  have "distanceTo (lastUpdatePos ?D) (camera_position ?D) < UPDATE_THRESHOLD"
    unfolding moveCamera_fields posB
    by (simp add: distanceTo_def vx_def vy_def vz_def UPDATE_THRESHOLD_def)
  then have "updateChunks ?D = ?D"
    by (rule throttled_refresh_unchanged)
  with memB have 1: "(- 120, - 60) \<in> fst ` set (chunks (updateChunks ?D))"
    and 2: "camera_position (updateChunks ?D) = (18, 15, 0)"
    by simp_all
  have 3: "BASE_MAX_DISTANCE * lodBias GoldenFields < chunkDistance 18 0 (- 120) (- 60)"
    by (simp add: BASE_MAX_DISTANCE_eq GoldenFields_def chunkDistance_def less_sqrt_iff)
  have "(0, 30) \<in> fst ` set (neededChunks (GoldenFields\<lparr>lodBias := 0\<rparr>) 0 40)"
    by (rule neededChunks_memberI [where i = 5 and j = 5])
      (simp_all add: Math_round_def CHUNK_SIZE_def BASE_MAX_DISTANCE_eq effectiveBias_def
        GoldenFields_def getLODLevel_unfold chunkDistance_def sqrt_less_iff)
  then have 4: "(0, 30) \<in> fst ` set (chunks (newGrassEngine exampleTable exampleStream 0 (GoldenFields\<lparr>lodBias := 0\<rparr>)))"
    by (simp add: newGrassEngine_keys)
  have 5: "BASE_MAX_DISTANCE * lodBias (GoldenFields\<lparr>lodBias := 0\<rparr>) < chunkDistance 0 40 0 30"
    by (simp add: chunkDistance_def)
  from 1 2 3 4 5 show ?thesis
    by simp
qed

section \<open>The grid of the chunk keys\<close>

lemma onGrid_iff: "onGrid y \<longleftrightarrow> (\<exists>i::int. y = of_int i * CHUNK_SIZE)"
proof
  assume "onGrid y"
  then have "y = of_int \<lfloor>y / CHUNK_SIZE\<rfloor> * CHUNK_SIZE"
    by (simp add: onGrid_def)
  then show "\<exists>i::int. y = of_int i * CHUNK_SIZE" ..
next
  assume "\<exists>i::int. y = of_int i * CHUNK_SIZE"
  then obtain i :: int where "y = of_int i * CHUNK_SIZE" ..
  then show "onGrid y"
    by (simp add: onGrid_def CHUNK_SIZE_def)
qed

lemma chunkRange_onGrid:
  assumes "x \<in> set (chunkRange (of_int m * CHUNK_SIZE - r) hi)"
  shows "onGrid (x + r)"
proof -
  from assms obtain k :: nat where "x = of_int m * CHUNK_SIZE - r + real k * CHUNK_SIZE"
    by (auto simp: chunkRange_mem)
  then have "x + r = of_int (m + int k) * CHUNK_SIZE"
    by (simp add: algebra_simps)
  then show ?thesis
    unfolding onGrid_iff ..
qed

lemma onGrid_diff:
  assumes "onGrid a" and "onGrid b"
  shows "onGrid (a - b)"
proof -
  from assms obtain i j :: int where "a = of_int i * CHUNK_SIZE" "b = of_int j * CHUNK_SIZE"
    by (auto simp: onGrid_iff)
  then have "a - b = of_int (i - j) * CHUNK_SIZE"
    by (simp add: algebra_simps)
  then show ?thesis
    unfolding onGrid_iff ..
qed

lemma onHalfGrid_iff: "onHalfGrid y \<longleftrightarrow> (\<exists>i::int. y = of_int i * (CHUNK_SIZE / 2))"
proof
  assume "onHalfGrid y"
  then have "y = of_int \<lfloor>y / (CHUNK_SIZE / 2)\<rfloor> * (CHUNK_SIZE / 2)"
    by (simp add: onHalfGrid_def)
  then show "\<exists>i::int. y = of_int i * (CHUNK_SIZE / 2)" ..
next
  assume "\<exists>i::int. y = of_int i * (CHUNK_SIZE / 2)"
  then obtain i :: int where "y = of_int i * (CHUNK_SIZE / 2)" ..
  then show "onHalfGrid y"
    by (simp add: onHalfGrid_def CHUNK_SIZE_def)
qed

lemma onGrid_onHalfGrid:
  assumes "onGrid y"
  shows "onHalfGrid y"
proof -
  from assms obtain i :: int where "y = of_int i * CHUNK_SIZE"
    by (auto simp: onGrid_iff)
  then have "y = of_int (2 * i) * (CHUNK_SIZE / 2)"
    by simp
  then show ?thesis
    unfolding onHalfGrid_iff ..
qed

lemma onHalfGrid_diff:
  assumes "onHalfGrid a" and "onHalfGrid b"
  shows "onHalfGrid (a - b)"
proof -
  from assms obtain i j :: int
    where "a = of_int i * (CHUNK_SIZE / 2)" "b = of_int j * (CHUNK_SIZE / 2)"
    by (auto simp: onHalfGrid_iff)
  then have "a - b = of_int (i - j) * (CHUNK_SIZE / 2)"
    by (simp add: algebra_simps)
  then show ?thesis
    unfolding onHalfGrid_iff ..
qed

text \<open>
  Claim C7, as amended. For every camera position and every configuration in which
  \<open>150 * bias\<close> is an integer multiple of 15, where the bias is \<open>lodBias\<close>, or 1 when
  \<open>lodBias\<close> is 0 (every step of the bias slider and every preset is such a configuration),
  the coordinates \<open>x\<close> and \<open>z\<close> of every chunk that a refresh loads lie on the grid of the
  multiples of 30 shifted by \<open>-150 * bias\<close>: \<open>x + 150 * bias\<close> and \<open>z + 150 * bias\<close> are
  integer multiples of 30, and \<open>x\<close> and \<open>z\<close> integer multiples of 15. They are multiples of
  30 themselves whenever \<open>150 * bias\<close> is one.
\<close>

theorem loaded_keys_on_shifted_grid:
  assumes "LoadChunk x z l \<in> set (newCalls s (updateChunks s))"
    and "onHalfGrid (BASE_MAX_DISTANCE * effectiveBias (currentConfig s))"
  shows "onGrid (x + BASE_MAX_DISTANCE * effectiveBias (currentConfig s))
       \<and> onGrid (z + BASE_MAX_DISTANCE * effectiveBias (currentConfig s))
       \<and> onHalfGrid x \<and> onHalfGrid z
       \<and> (onGrid (BASE_MAX_DISTANCE * effectiveBias (currentConfig s)) \<longrightarrow> onGrid x \<and> onGrid z)"
proof -
  let ?r = "BASE_MAX_DISTANCE * effectiveBias (currentConfig s)"
  from updateChunks_calls [of s] obtain cs where cs: "calls (updateChunks s) = calls s @ cs"
    and loads: "\<forall>x z l. LoadChunk x z l \<in> set cs \<longrightarrow>
        (x, z) \<in> fst ` set (neededChunks (currentConfig s)
                              (vx (camera_position s)) (vz (camera_position s)))"
    by blast
  from cs have "newCalls s (updateChunks s) = cs"
    by (simp add: newCalls_def)
  with assms(1) have "LoadChunk x z l \<in> set cs"
    by simp
  with loads
  have "(x, z) \<in> fst ` set (neededChunks (currentConfig s)
                              (vx (camera_position s)) (vz (camera_position s)))"
    by blast
  then have x: "onGrid (x + ?r)" and z: "onGrid (z + ?r)"
    by (auto simp: neededChunks_keys dest: chunkRange_onGrid)
  have hx: "onHalfGrid x"
    using onHalfGrid_diff [OF onGrid_onHalfGrid [OF x] assms(2)] by simp
  have hz: "onHalfGrid z"
    using onHalfGrid_diff [OF onGrid_onHalfGrid [OF z] assms(2)] by simp
  have "onGrid x \<and> onGrid z" if "onGrid ?r"
    using onGrid_diff [OF x that] onGrid_diff [OF z that] by simp
  with x z hx hz show ?thesis
    by blast
qed

theorem loaded_keys_on_shifted_grid_witness:
  "LoadChunk 0 30 0 \<in> set (newCalls (constructed exampleTable exampleStream 0 GoldenFields)
       (updateChunks (constructed exampleTable exampleStream 0 GoldenFields)))
   \<and> onHalfGrid (BASE_MAX_DISTANCE * effectiveBias (currentConfig (constructed exampleTable exampleStream 0 GoldenFields)))
   \<and> onGrid (BASE_MAX_DISTANCE * effectiveBias (currentConfig (constructed exampleTable exampleStream 0 GoldenFields)))
   \<and> onGrid 0 \<and> onGrid 30 \<and> onHalfGrid 0 \<and> onHalfGrid 30
   \<and> LoadChunk (- 15) 45 0 \<in> set (newCalls (constructed exampleTable exampleStream 0 BambooGrove)
       (updateChunks (constructed exampleTable exampleStream 0 BambooGrove)))
   \<and> onHalfGrid (BASE_MAX_DISTANCE * effectiveBias (currentConfig (constructed exampleTable exampleStream 0 BambooGrove)))
   \<and> onGrid (- 15 + BASE_MAX_DISTANCE * effectiveBias (currentConfig (constructed exampleTable exampleStream 0 BambooGrove)))
   \<and> onHalfGrid (- 15) \<and> onHalfGrid 45"
proof -
  let ?S = "constructed exampleTable exampleStream 0 GoldenFields"
  let ?B = "constructed exampleTable exampleStream 0 BambooGrove"
  have "getLODLevel GoldenFields (chunkDistance 0 40 0 30) = 0"
    by (simp add: getLODLevel_unfold effectiveBias_def GoldenFields_def chunkDistance_def sqrt_less_iff)
  with updateChunks_loads [OF constructed_not_throttled, of 0 30 exampleTable exampleStream 0 GoldenFields]
    first_frame_GoldenFields
  have call: "LoadChunk 0 30 0 \<in> set (newCalls ?S (updateChunks ?S))"
    by (simp add: vx_def vz_def)
  have half: "onHalfGrid (BASE_MAX_DISTANCE * effectiveBias (currentConfig ?S))"
    by (simp add: onHalfGrid_def BASE_MAX_DISTANCE_eq effectiveBias_def GoldenFields_def CHUNK_SIZE_def)
  have grid: "onGrid (BASE_MAX_DISTANCE * effectiveBias (currentConfig ?S))"
    by (simp add: onGrid_def BASE_MAX_DISTANCE_eq effectiveBias_def GoldenFields_def CHUNK_SIZE_def)
  note g = loaded_keys_on_shifted_grid [OF call half]
  from g grid have g1: "onGrid 0" "onGrid 30" "onHalfGrid 0" "onHalfGrid 30"
    by simp_all
  have "chunkDistance 0 40 (- 15) 45 < 16"
    by (simp add: chunkDistance_def sqrt_less_iff)
  moreover have "16 \<le> 45 * effectiveBias BambooGrove"
    by (simp add: effectiveBias_def BambooGrove_def)
  ultimately have "chunkDistance 0 40 (- 15) 45 < 45 * effectiveBias BambooGrove"
    by simp
  then have lod: "getLODLevel BambooGrove (chunkDistance 0 40 (- 15) 45) = 0"
    by (simp add: getLODLevel_unfold)
  have mem: "(- 15, 45) \<in> fst ` set (neededChunks BambooGrove 0 40)"
    by (rule neededChunks_memberI [where i = 7 and j = 8])
      (simp_all add: lod, simp_all add: Math_round_def CHUNK_SIZE_def BASE_MAX_DISTANCE_eq
        effectiveBias_def BambooGrove_def)
  with updateChunks_loads [OF constructed_not_throttled, of "- 15" 45 exampleTable exampleStream 0 BambooGrove]
    lod
  have callB: "LoadChunk (- 15) 45 0 \<in> set (newCalls ?B (updateChunks ?B))"
    by (simp add: vx_def vz_def)
  have halfB: "onHalfGrid (BASE_MAX_DISTANCE * effectiveBias (currentConfig ?B))"
    by (simp add: onHalfGrid_def BASE_MAX_DISTANCE_eq effectiveBias_def BambooGrove_def CHUNK_SIZE_def)
  note b = loaded_keys_on_shifted_grid [OF callB halfB]
  from b have b1: "onGrid (- 15 + BASE_MAX_DISTANCE * effectiveBias (currentConfig ?B))"
    "onHalfGrid (- 15)" "onHalfGrid 45"
    by simp_all
  show ?thesis
    by (intro conjI) (rule call half grid g1 callB halfB b1)+
qed

text \<open>
  With the preset whose \<open>lodBias\<close> is 1.5, the first frame loads the chunk at \<open>(-15, 45)\<close>;
  neither coordinate is a multiple of 30.
\<close>

theorem loaded_keys_grid_counterexample:
  "LoadChunk (- 15) 45 0 \<in> set (newCalls (constructed exampleTable exampleStream 0 BambooGrove)
       (updateChunks (constructed exampleTable exampleStream 0 BambooGrove)))
   \<and> (- 15, 45) \<in> fst ` set (chunks (newGrassEngine exampleTable exampleStream 0 BambooGrove))
   \<and> \<not> onGrid (- 15) \<and> \<not> onGrid 45"
proof -
  let ?S = "constructed exampleTable exampleStream 0 BambooGrove"
  have "chunkDistance 0 40 (- 15) 45 < 16"
    by (simp add: chunkDistance_def sqrt_less_iff)
  moreover have "16 \<le> 45 * effectiveBias BambooGrove"
    by (simp add: effectiveBias_def BambooGrove_def)
  ultimately have "chunkDistance 0 40 (- 15) 45 < 45 * effectiveBias BambooGrove"
    by simp
  then have lod: "getLODLevel BambooGrove (chunkDistance 0 40 (- 15) 45) = 0"
    by (simp add: getLODLevel_unfold)
  have mem: "(- 15, 45) \<in> fst ` set (neededChunks BambooGrove 0 40)"
    by (rule neededChunks_memberI [where i = 7 and j = 8])
      (simp_all add: lod, simp_all add: Math_round_def CHUNK_SIZE_def BASE_MAX_DISTANCE_eq
        effectiveBias_def BambooGrove_def)
  note lod
  with updateChunks_loads [OF constructed_not_throttled, of "- 15" 45 exampleTable exampleStream 0 BambooGrove]
    mem
  have "LoadChunk (- 15) 45 0 \<in> set (newCalls ?S (updateChunks ?S))"
    by (simp add: vx_def vz_def)
  moreover from mem have "(- 15, 45) \<in> fst ` set (chunks (newGrassEngine exampleTable exampleStream 0 BambooGrove))"
    by (simp add: newGrassEngine_keys)
  moreover have "\<not> onGrid (- 15)" "\<not> onGrid 45"
    by (simp_all add: onGrid_def CHUNK_SIZE_def)
  ultimately show ?thesis
    by blast
qed

section \<open>Reconciling a configuration\<close>

lemma initResources_fields [simp]:
  "chunks (initResources s cfg) = chunks s"
  "calls (initResources s cfg) = calls s"
  "camera_position (initResources s cfg) = camera_position s"
  "currentConfig (initResources s cfg) = currentConfig s"
  "lastUpdatePos (initResources s cfg) = lastUpdatePos s"
  by (simp_all add: initResources_def Let_def)

lemma needsRebuild_iff:
  "needsRebuild prevConfig config \<longleftrightarrow> structuralFields config \<noteq> structuralFields prevConfig"
  by (auto simp: needsRebuild_def structuralFields_def Let_def)

lemma updateConfig_cosmetic:
  assumes "structuralFields config = structuralFields (currentConfig s)"
  shows "updateConfig s config = s\<lparr>currentConfig := config\<rparr>"
  using assms by (simp add: updateConfig_def needsRebuild_iff Let_def)

lemma updateConfig_structural:
  assumes "structuralFields config \<noteq> structuralFields (currentConfig s)"
  shows "updateConfig s config =
     updateChunks
       ((fold (\<lambda>key st. unloadChunk st key) (map fst (chunks s))
           (initResources (s\<lparr>currentConfig := config\<rparr>) config))
        \<lparr>chunks := [], lastUpdatePos := sentinelPos\<rparr>)"
  using assms by (simp add: updateConfig_def needsRebuild_iff Let_def)

text \<open>The state in which a structural change starts its refresh.\<close>

lemma rebuilt_fields:
  assumes "t = (fold (\<lambda>key st. unloadChunk st key) (map fst (chunks s))
           (initResources (s\<lparr>currentConfig := config\<rparr>) config))
        \<lparr>chunks := [], lastUpdatePos := sentinelPos\<rparr>"
  shows "initialised t" and "chunks t = []" and "lastUpdatePos t = sentinelPos"
    and "camera_position t = camera_position s" and "currentConfig t = config"
    and "calls t = calls s @ map UnloadChunk (map fst (chunks s))"
proof -
  let ?i = "initResources (s\<lparr>currentConfig := config\<rparr>) config"
  let ?u = "fold (\<lambda>key st. unloadChunk st key) (map fst (chunks s)) ?i"
  have same: "sameShared ?i ?u"
    by (rule fold_unloadChunk_sameShared)
  then have "initialised ?u"
    by (simp add: sameShared_initialised)
  then show "initialised t"
    by (simp add: assms)
  show "chunks t = []" and "lastUpdatePos t = sentinelPos"
    by (simp_all add: assms)
  from same show "camera_position t = camera_position s" and "currentConfig t = config"
    by (simp_all add: assms sameShared_def)
  show "calls t = calls s @ map UnloadChunk (map fst (chunks s))"
    by (simp add: assms fold_unloadChunk_calls)
qed

lemma distanceTo_self: "distanceTo p p = 0"
  by (simp add: distanceTo_def)

text \<open>
  Claim C2, as amended. A structural change (a difference in blade width, blade height,
  blade count, LOD bias, debug flag, peripheral multiplier, tree density or tree scale)
  unloads every chunk key that was loaded; provided the camera is at least 5 units away
  from the sentinel position \<open>(99999, 99999, 99999)\<close>, it then loads the needed set of the
  new configuration at once, and the store holds exactly the keys of that set, each chunk
  at the LOD level of its distance from the camera. A change that leaves these fields
  alone makes no call of \<open>loadChunk\<close> or \<open>unloadChunk\<close> and leaves the store, the scene
  group and the disposal log as they were.
\<close>

theorem updateConfig_structural_or_cosmetic:
  "(structuralFields config \<noteq> structuralFields (currentConfig s) \<longrightarrow>
      (\<forall>k \<in> fst ` set (chunks s). UnloadChunk k \<in> set (newCalls s (updateConfig s config)))
      \<and> (\<not> distanceTo sentinelPos (camera_position s) < UPDATE_THRESHOLD \<longrightarrow>
            fst ` set (chunks (updateConfig s config))
              = fst ` set (neededChunks config (vx (camera_position s)) (vz (camera_position s)))
            \<and> (\<forall>k \<in> fst ` set (neededChunks config (vx (camera_position s)) (vz (camera_position s))).
                  LoadChunk (fst k) (snd k)
                    (getLODLevel config
                       (chunkDistance (vx (camera_position s)) (vz (camera_position s)) (fst k) (snd k)))
                  \<in> set (newCalls s (updateConfig s config)))
            \<and> (\<forall>k c. map_of (chunks (updateConfig s config)) k = Some c \<longrightarrow>
                  lodLevel c = getLODLevel config
                    (chunkDistance (vx (camera_position s)) (vz (camera_position s)) (fst k) (snd k)))))
   \<and> (structuralFields config = structuralFields (currentConfig s) \<longrightarrow>
        newCalls s (updateConfig s config) = []
        \<and> chunks (updateConfig s config) = chunks s
        \<and> chunkGroup (updateConfig s config) = chunkGroup s
        \<and> disposed (updateConfig s config) = disposed s)"
proof (intro conjI impI)
  assume "structuralFields config = structuralFields (currentConfig s)"
  then have eq: "updateConfig s config = s\<lparr>currentConfig := config\<rparr>"
    by (rule updateConfig_cosmetic)
  show "newCalls s (updateConfig s config) = []" "chunks (updateConfig s config) = chunks s"
    "chunkGroup (updateConfig s config) = chunkGroup s"
    "disposed (updateConfig s config) = disposed s"
    by (simp_all add: eq newCalls_def)
next
  assume str: "structuralFields config \<noteq> structuralFields (currentConfig s)"
  define t where "t = (fold (\<lambda>key st. unloadChunk st key) (map fst (chunks s))
           (initResources (s\<lparr>currentConfig := config\<rparr>) config))
        \<lparr>chunks := [], lastUpdatePos := sentinelPos\<rparr>"
  note t = rebuilt_fields [OF t_def]
  from str have eq: "updateConfig s config = updateChunks t"
    unfolding t_def by (rule updateConfig_structural)
  from updateChunks_calls [of t] obtain cs where "calls (updateChunks t) = calls t @ cs"
    by blast
  with t(6) have new: "newCalls s (updateConfig s config) = map UnloadChunk (map fst (chunks s)) @ cs"
    by (simp add: eq newCalls_def)
  show "\<forall>k \<in> fst ` set (chunks s). UnloadChunk k \<in> set (newCalls s (updateConfig s config))"
    unfolding new by auto
  {
    assume far: "\<not> distanceTo sentinelPos (camera_position s) < UPDATE_THRESHOLD"
    then have nt: "\<not> distanceTo (lastUpdatePos t) (camera_position t) < UPDATE_THRESHOLD"
      by (simp add: t)
    from updateChunks_keys [OF nt t(1)]
    show "fst ` set (chunks (updateConfig s config))
        = fst ` set (neededChunks config (vx (camera_position s)) (vz (camera_position s)))"
      by (simp add: eq t)
    show "\<forall>k \<in> fst ` set (neededChunks config (vx (camera_position s)) (vz (camera_position s))).
            LoadChunk (fst k) (snd k)
              (getLODLevel config
                 (chunkDistance (vx (camera_position s)) (vz (camera_position s)) (fst k) (snd k)))
            \<in> set (newCalls s (updateConfig s config))"
    proof
      fix k
      assume "k \<in> fst ` set (neededChunks config (vx (camera_position s)) (vz (camera_position s)))"
      then have "(fst k, snd k) \<in> fst ` set (neededChunks (currentConfig t)
          (vx (camera_position t)) (vz (camera_position t)))"
        by (simp add: t)
      from updateChunks_loads [OF nt this]
      have "LoadChunk (fst k) (snd k)
              (getLODLevel config
                 (chunkDistance (vx (camera_position s)) (vz (camera_position s)) (fst k) (snd k)))
            \<in> set (newCalls t (updateChunks t))"
        by (simp add: t)
      moreover have "newCalls t (updateChunks t)
          = drop (length (map UnloadChunk (map fst (chunks s)))) (newCalls s (updateConfig s config))"
        by (simp add: newCalls_def eq t(6) add.commute)
      ultimately show "LoadChunk (fst k) (snd k)
              (getLODLevel config
                 (chunkDistance (vx (camera_position s)) (vz (camera_position s)) (fst k) (snd k)))
            \<in> set (newCalls s (updateConfig s config))"
        by (metis in_set_dropD)
    qed
    show "\<forall>k c. map_of (chunks (updateConfig s config)) k = Some c \<longrightarrow>
            lodLevel c = getLODLevel config
              (chunkDistance (vx (camera_position s)) (vz (camera_position s)) (fst k) (snd k))"
    proof (intro allI impI)
      fix k c
      assume "map_of (chunks (updateConfig s config)) k = Some c"
      then have "map_of (chunks (updateChunks t)) k = Some c"
        by (simp add: eq)
      from updateChunks_lods [OF nt t(1) t(2) this] show "lodLevel c = getLODLevel config
              (chunkDistance (vx (camera_position s)) (vz (camera_position s)) (fst k) (snd k))"
        by (simp add: t)
    qed
  }
qed

lemma structural_example:
  "structuralFields (GoldenFields\<lparr>bladeHeight := 18 / 5\<rparr>) \<noteq> structuralFields GoldenFields"
  "structuralFields (GoldenFields\<lparr>tipColor := ''#FFFFFF''\<rparr>) = structuralFields GoldenFields"
  by (simp_all add: structuralFields_def GoldenFields_def)

theorem updateConfig_structural_or_cosmetic_witness:
  "structuralFields (GoldenFields\<lparr>bladeHeight := 18 / 5\<rparr>)
     \<noteq> structuralFields (currentConfig (newGrassEngine exampleTable exampleStream 0 GoldenFields))
   \<and> (0, 30) \<in> fst ` set (chunks (newGrassEngine exampleTable exampleStream 0 GoldenFields))
   \<and> UnloadChunk (0, 30)
       \<in> set (newCalls (newGrassEngine exampleTable exampleStream 0 GoldenFields)
                (updateConfig (newGrassEngine exampleTable exampleStream 0 GoldenFields)
                   (GoldenFields\<lparr>bladeHeight := 18 / 5\<rparr>)))
   \<and> \<not> distanceTo sentinelPos
         (camera_position (newGrassEngine exampleTable exampleStream 0 GoldenFields)) < UPDATE_THRESHOLD
   \<and> (0, 30) \<in> fst ` set (chunks (updateConfig (newGrassEngine exampleTable exampleStream 0 GoldenFields)
                                       (GoldenFields\<lparr>bladeHeight := 18 / 5\<rparr>)))
   \<and> LoadChunk 0 30 0
       \<in> set (newCalls (newGrassEngine exampleTable exampleStream 0 GoldenFields)
                (updateConfig (newGrassEngine exampleTable exampleStream 0 GoldenFields)
                   (GoldenFields\<lparr>bladeHeight := 18 / 5\<rparr>)))
   \<and> (\<exists>c. map_of (chunks (updateConfig (newGrassEngine exampleTable exampleStream 0 GoldenFields)
                                (GoldenFields\<lparr>bladeHeight := 18 / 5\<rparr>))) (0, 30) = Some c
          \<and> lodLevel c = 0)
   \<and> structuralFields (GoldenFields\<lparr>tipColor := ''#FFFFFF''\<rparr>)
     = structuralFields (currentConfig (newGrassEngine exampleTable exampleStream 0 GoldenFields))
   \<and> newCalls (newGrassEngine exampleTable exampleStream 0 GoldenFields)
        (updateConfig (newGrassEngine exampleTable exampleStream 0 GoldenFields)
           (GoldenFields\<lparr>tipColor := ''#FFFFFF''\<rparr>)) = []
   \<and> chunks (updateConfig (newGrassEngine exampleTable exampleStream 0 GoldenFields)
               (GoldenFields\<lparr>tipColor := ''#FFFFFF''\<rparr>))
     = chunks (newGrassEngine exampleTable exampleStream 0 GoldenFields)"
proof -
  let ?N = "newGrassEngine exampleTable exampleStream 0 GoldenFields"
  let ?c1 = "GoldenFields\<lparr>bladeHeight := 18 / 5\<rparr>"
  let ?c2 = "GoldenFields\<lparr>tipColor := ''#FFFFFF''\<rparr>"
  have s1: "structuralFields ?c1 \<noteq> structuralFields (currentConfig ?N)"
    and s2: "structuralFields ?c2 = structuralFields (currentConfig ?N)"
    by (simp_all add: structural_example)
  have far: "\<not> distanceTo sentinelPos (camera_position ?N) < UPDATE_THRESHOLD"
    by (simp add: far_from_sentinel)
  have old: "(0, 30) \<in> fst ` set (chunks ?N)"
    by (simp add: newGrassEngine_keys first_frame_GoldenFields)
  have mem: "(0, 30) \<in> fst ` set (neededChunks ?c1 (vx (camera_position ?N)) (vz (camera_position ?N)))"
    by (simp add: vx_def vz_def)
      (rule neededChunks_memberI [where i = 5 and j = 5],
        simp_all add: Math_round_def CHUNK_SIZE_def BASE_MAX_DISTANCE_eq effectiveBias_def
          GoldenFields_def getLODLevel_unfold chunkDistance_def sqrt_less_iff)
  have lod: "getLODLevel ?c1 (chunkDistance (vx (camera_position ?N)) (vz (camera_position ?N)) 0 30) = 0"
    by (simp add: vx_def vz_def getLODLevel_unfold effectiveBias_def GoldenFields_def
        chunkDistance_def sqrt_less_iff)
  note thm1 = updateConfig_structural_or_cosmetic [of ?c1 ?N, THEN conjunct1, rule_format, OF s1]
  note thm2 = updateConfig_structural_or_cosmetic [of ?c2 ?N, THEN conjunct2, rule_format, OF s2]
  note unloads = thm1 [THEN conjunct1]
  note reload = thm1 [THEN conjunct2, rule_format, OF far]
  from unloads old have u: "UnloadChunk (0, 30) \<in> set (newCalls ?N (updateConfig ?N ?c1))"
    by (rule bspec)
  from reload [THEN conjunct1] mem have k: "(0, 30) \<in> fst ` set (chunks (updateConfig ?N ?c1))"
    by simp
  from reload [THEN conjunct2, THEN conjunct1, THEN bspec, OF mem] lod
  have l: "LoadChunk 0 30 0 \<in> set (newCalls ?N (updateConfig ?N ?c1))"
    by simp
  from k obtain c where c: "map_of (chunks (updateConfig ?N ?c1)) (0, 30) = Some c"
    by (metis map_of_eq_None_iff not_None_eq)
  from reload [THEN conjunct2, THEN conjunct2, rule_format, OF c] lod
  have "lodLevel c = 0"
    by simp
  with c have m: "\<exists>c. map_of (chunks (updateConfig ?N ?c1)) (0, 30) = Some c \<and> lodLevel c = 0"
    by blast
  from thm2 have n: "newCalls ?N (updateConfig ?N ?c2) = []"
    and o: "chunks (updateConfig ?N ?c2) = chunks ?N"
    by simp_all
  show ?thesis
    by (intro conjI) (rule s1 old u far k l m s2 n o)+
qed

text \<open>
  With the camera at the sentinel position, doubling the blade height unloads every chunk
  and loads none, although the needed set of that camera position is not empty.
\<close>

theorem updateConfig_sentinel_counterexample:
  "structuralFields (GoldenFields\<lparr>bladeHeight := 18 / 5\<rparr>)
     \<noteq> structuralFields (currentConfig
          (moveCamera (newGrassEngine exampleTable exampleStream 0 GoldenFields) (99999, 99999, 99999)))
   \<and> chunks (updateConfig
        (moveCamera (newGrassEngine exampleTable exampleStream 0 GoldenFields) (99999, 99999, 99999))
        (GoldenFields\<lparr>bladeHeight := 18 / 5\<rparr>)) = []
   \<and> (99990, 99990) \<in> fst ` set (neededChunks (GoldenFields\<lparr>bladeHeight := 18 / 5\<rparr>) 99999 99999)"
proof -
  let ?M = "moveCamera (newGrassEngine exampleTable exampleStream 0 GoldenFields) (99999, 99999, 99999)"
  let ?c1 = "GoldenFields\<lparr>bladeHeight := 18 / 5\<rparr>"
  define t where "t = (fold (\<lambda>key st. unloadChunk st key) (map fst (chunks ?M))
           (initResources (?M\<lparr>currentConfig := ?c1\<rparr>) ?c1))
        \<lparr>chunks := [], lastUpdatePos := sentinelPos\<rparr>"
  note t = rebuilt_fields [OF t_def]
  have s1: "structuralFields ?c1 \<noteq> structuralFields (currentConfig ?M)"
    by (simp add: structural_example)
  then have "updateConfig ?M ?c1 = updateChunks t"
    unfolding t_def by (rule updateConfig_structural)
  moreover have "distanceTo (lastUpdatePos t) (camera_position t) < UPDATE_THRESHOLD"
    by (simp add: t sentinelPos_def distanceTo_self UPDATE_THRESHOLD_def)
  ultimately have "chunks (updateConfig ?M ?c1) = []"
    by (simp add: throttled_refresh_unchanged t)
  moreover have "(99990, 99990) \<in> fst ` set (neededChunks ?c1 99999 99999)"
    by (rule neededChunks_memberI [where i = 5 and j = 5])
      (simp_all add: Math_round_def CHUNK_SIZE_def BASE_MAX_DISTANCE_eq effectiveBias_def
        GoldenFields_def getLODLevel_unfold chunkDistance_def sqrt_less_iff)
  ultimately show ?thesis
    using s1 by blast
qed

section \<open>Unloading and the shared resources\<close>

lemma sharedIds_frame [simp]:
  "sharedIds (loadChunk s x z l) = sharedIds s"
  "sharedIds (unloadChunk s k) = sharedIds s"
  by (simp_all add: sharedIds_def)

lemma unload_zero_blade_chunk:
  assumes "initialised s" and "0 \<le> l" and "l < int (length LOD_LEVELS)"
    and "chunkBladeCount (currentConfig s) l \<le> 0"
  shows "geo_id (lodGeometries s ! nat l)
      \<in> set (disposed (unloadChunk (loadChunk s x z l) (getChunkKey x z)))"
proof -
  from loadChunk_entry [OF assms(1-3), of x z] assms(4)
  obtain c where "chunks (loadChunk s x z l) = AList.update (x, z) c (chunks s)"
    and "geometry (grass c) = lodGeometries s ! nat l"
    by blast
  then have "map_of (chunks (loadChunk s x z l)) (getChunkKey x z) = Some c"
    and "geo_id (geometry (grass c)) = geo_id (lodGeometries s ! nat l)"
    by (simp_all add: getChunkKey_def update_conv')
  then show ?thesis
    by (simp add: unloadChunk_def Let_def)
qed

text \<open>
  With a positive blade count the chunk has objects of its own, created after every shared
  resource, and unloading disposes only those.
\<close>

lemma builders_nextId:
  "nextId (snd (buildGround s m)) = nextId s + 3"
  "nextId s \<le> nextId (snd (buildTrees s ms))"
  by (simp_all add: build_defs Let_def split: option.splits)

lemma buildGround_mesh:
  "geo_id (geometry (fst (buildGround s m))) = nextId s"
  "material (fst (buildGround s m)) =
     (if lodDebug (currentConfig s) = Some True
      then \<lparr>mat_id = nextId s + 1, mat_kind = MeshBasicMaterial\<rparr> else m)"
  by (simp_all add: buildGround_def Let_def)

lemma buildGrass_positive:
  assumes "0 < chunkBladeCount (currentConfig t) l"
  shows "geo_id (geometry (fst (buildGrass t g m x z l))) = nextId t"
  using assms by (simp add: buildGrass_def Let_def)

lemma unload_owned_only:
  assumes "initialised s" and "0 \<le> l" and "l < int (length LOD_LEVELS)"
    and "0 < chunkBladeCount (currentConfig s) l"
    and "\<forall>i \<in> set (sharedIds s). i < nextId s"
    and "\<forall>m. groundMaterial s = Some m \<longrightarrow> mat_kind m \<noteq> MeshBasicMaterial"
  shows "\<exists>ds. disposed (unloadChunk (loadChunk s x z l) (getChunkKey x z)) = disposed s @ ds
           \<and> set ds \<inter> set (sharedIds s) = {}"
proof -
  let ?s0 = "s\<lparr>calls := calls s @ [LoadChunk x z l]\<rparr>"
  let ?g = "buildGround ?s0 (the (groundMaterial s))"
  let ?t = "buildTrees (snd ?g) (treeMatrices (snd ?g) x z l)"
  let ?r = "buildGrass (snd ?t) (lodGeometries s ! nat l) (the (grassMaterial s)) x z l"
  let ?c = "\<lparr>grass = fst ?r, ground = fst ?g, trees = fst ?t, lodLevel = l\<rparr>"
  let ?ds = "[geo_id (geometry (grass ?c))] @ [geo_id (geometry (ground ?c))]
      @ (if mat_kind (material (ground ?c)) = MeshBasicMaterial
         then [mat_id (material (ground ?c))] else [])"
  have sg: "sameShared s (snd ?g)"
    by (simp add: sameShared_def buildGround_def Let_def)
  have st: "sameShared s (snd ?t)"
    using sg buildTrees_frame(1) by (blast intro: sameShared_trans)
  then have cfg: "currentConfig (snd ?t) = currentConfig s"
    by (simp add: sameShared_def)
  have load: "loadChunk s x z l = (snd ?r)\<lparr>chunks := AList.update (x, z) ?c (chunks s)\<rparr>"
    by (simp add: loadChunk_initialised [OF assms(1-3)] Let_def)
  then have "map_of (chunks (loadChunk s x z l)) (getChunkKey x z) = Some ?c"
    by (simp add: getChunkKey_def update_conv')
  moreover have "disposed (loadChunk s x z l) = disposed s"
    by simp
  ultimately have disp: "disposed (unloadChunk (loadChunk s x z l) (getChunkKey x z)) = disposed s @ ?ds"
    by (simp add: unloadChunk_def Let_def)
  have fresh_grass: "nextId s \<le> geo_id (geometry (grass ?c))"
    using assms(4) builders_nextId(2) [of "snd ?g" "treeMatrices (snd ?g) x z l"]
    by (simp add: buildGrass_positive cfg builders_nextId(1))
  have fresh_ground: "geo_id (geometry (ground ?c)) = nextId s"
    by (simp add: buildGround_mesh)
  from assms(1) obtain gm where gm: "groundMaterial s = Some gm"
    by (auto simp: initialised_def)
  with assms(6) have "mat_kind gm \<noteq> MeshBasicMaterial"
    by simp
  with gm have fresh_mat: "mat_kind (material (ground ?c)) = MeshBasicMaterial
      \<Longrightarrow> mat_id (material (ground ?c)) = nextId s + 1"
    by (simp add: buildGround_mesh split: if_splits)
  have "\<forall>i \<in> set ?ds. nextId s \<le> i"
    using fresh_grass fresh_ground fresh_mat by auto
  with assms(5) have "set ?ds \<inter> set (sharedIds s) = {}"
    by fastforce
  with disp show ?thesis
    by blast
qed

lemma initResources_ids:
  "\<forall>i \<in> set (sharedIds (initResources s cfg)). i < nextId (initResources s cfg)"
  "\<forall>m. groundMaterial (initResources s cfg) = Some m \<longrightarrow> mat_kind m \<noteq> MeshBasicMaterial"
  by (auto simp: sharedIds_def initResources_def Let_def disposeGeo_def disposeMat_def)

text \<open>
  Claim C1 does not hold of the code. With a blade count of zero, \<open>loadChunk\<close> gives the
  grass mesh of the chunk the shared blade geometry of its LOD level, and \<open>unloadChunk\<close>
  disposes the geometry of the grass mesh: after loading and unloading the chunk at
  \<open>(0, 0)\<close> the blade geometry of level 0, still one of the shared resources, is in the
  disposal log. The key itself is removed from the store.
\<close>

theorem unloadChunk_disposes_shared_geometry:
  "geo_id (lodGeometries (constructed exampleTable exampleStream 0 (GoldenFields\<lparr>bladeCount := 0\<rparr>)) ! 0)
     \<in> set (disposed (unloadChunk
          (loadChunk (constructed exampleTable exampleStream 0 (GoldenFields\<lparr>bladeCount := 0\<rparr>)) 0 0 0)
          (getChunkKey 0 0)))
   \<and> geo_id (lodGeometries (constructed exampleTable exampleStream 0 (GoldenFields\<lparr>bladeCount := 0\<rparr>)) ! 0)
     \<in> set (sharedIds (unloadChunk
          (loadChunk (constructed exampleTable exampleStream 0 (GoldenFields\<lparr>bladeCount := 0\<rparr>)) 0 0 0)
          (getChunkKey 0 0)))
   \<and> disposed (constructed exampleTable exampleStream 0 (GoldenFields\<lparr>bladeCount := 0\<rparr>)) = []
   \<and> getChunkKey 0 0 \<notin> fst ` set (chunks (unloadChunk
          (loadChunk (constructed exampleTable exampleStream 0 (GoldenFields\<lparr>bladeCount := 0\<rparr>)) 0 0 0)
          (getChunkKey 0 0)))"
proof -
  let ?S = "constructed exampleTable exampleStream 0 (GoldenFields\<lparr>bladeCount := 0\<rparr>)"
  have "chunkBladeCount (currentConfig ?S) 0 \<le> 0"
    by (simp add: chunkBladeCount_def GoldenFields_def getBladeDensity_def LOD_LEVELS_def
        CHUNK_SIZE_def Let_def)
  from unload_zero_blade_chunk [OF _ _ _ this, of 0 0]
  have 1: "geo_id (lodGeometries ?S ! 0)
      \<in> set (disposed (unloadChunk (loadChunk ?S 0 0 0) (getChunkKey 0 0)))"
    by (simp add: LOD_nth)
  have "length (lodGeometries ?S) = 3"
    using constructed_simps(1) [of exampleTable exampleStream 0 "GoldenFields\<lparr>bladeCount := 0\<rparr>"]
    by (simp add: initialised_def LOD_nth)
  then have 2: "geo_id (lodGeometries ?S ! 0) \<in> set (sharedIds ?S)"
    by (simp add: sharedIds_def)
  from 1 2 show ?thesis
    by (simp add: delete_notin_dom)
qed

end
